theory Spec2Isabelle
  imports Main "HOL-Library.AList"
begin

section \<open>Python primitives used by the connection hub\<close>

text \<open>
  Exceptions are values: a call that raises returns \<open>Inl e\<close>. \<open>OtherError\<close> stands for
  any other subclass of \<open>Exception\<close> (a transport failure, an unreachable store, a failed
  import); every \<open>except Exception\<close> of the source catches all of them.
\<close>

datatype error = KeyError | ValueError | OtherError string

text \<open>
  A Python \<open>dict\<close> keeps its keys in insertion order, so it is an association list:
  \<open>d[k] = v\<close> overwrites in place or appends, \<open>del d[k]\<close> raises \<open>KeyError\<close> on a
  missing key, \<open>xs.remove(x)\<close> drops the first occurrence and raises \<open>ValueError\<close> when
  there is none.
\<close>

type_synonym ('k, 'v) dict = "('k \<times> 'v) list"

definition py_in :: "'k \<Rightarrow> ('k, 'v) dict \<Rightarrow> bool" where
  "py_in k d = (k \<in> set (map fst d))"

definition py_getitem :: "'k \<Rightarrow> ('k, 'v) dict \<Rightarrow> error + 'v" where
  "py_getitem k d = (case map_of d k of None \<Rightarrow> Inl KeyError | Some v \<Rightarrow> Inr v)"

definition py_get :: "'k \<Rightarrow> 'v \<Rightarrow> ('k, 'v) dict \<Rightarrow> 'v" where
  "py_get k dflt d = (case map_of d k of None \<Rightarrow> dflt | Some v \<Rightarrow> v)"

definition py_setitem :: "'k \<Rightarrow> 'v \<Rightarrow> ('k, 'v) dict \<Rightarrow> ('k, 'v) dict" where
  "py_setitem k v d = AList.update k v d"

definition py_delitem :: "'k \<Rightarrow> ('k, 'v) dict \<Rightarrow> error + ('k, 'v) dict" where
  "py_delitem k d = (if py_in k d then Inr (AList.delete k d) else Inl KeyError)"

definition py_remove :: "'a \<Rightarrow> 'a list \<Rightarrow> error + 'a list" where
  "py_remove x xs = (if x \<in> set xs then Inr (remove1 x xs) else Inl ValueError)"

section \<open>ConnectionManager (core/websocket_manager.py)\<close>

text \<open>
  A \<open>WebSocket\<close> object compares by identity, so it is its handle number. A message is
  an opaque key-value structure. The role lookup \<open>core.auth.get_effective_role\<close>, the
  session-owner query of \<open>core.turso_database\<close> and the transport's \<open>send_json\<close> are
  collaborators outside the class: each is a parameter whose result \<open>Inl e\<close> means that
  the call raised \<open>e\<close>.
\<close>

type_synonym user_id = int
type_synonym websocket = nat
type_synonym session_id = string
type_synonym role = string
type_synonym message = "(string \<times> string) list"

type_synonym role_lookup = "user_id \<Rightarrow> error + role"
type_synonym owner_lookup = "session_id \<Rightarrow> error + user_id option"
type_synonym transport = "websocket \<Rightarrow> message \<Rightarrow> error + unit"

record connection_manager =
  connections :: "(user_id, websocket list) dict"
  user_sessions :: "(user_id, (session_id, websocket) dict) dict"
  session_watchers :: "(session_id, user_id list) dict"
  user_roles :: "(user_id, role) dict"

definition init_connection_manager :: connection_manager where
  "init_connection_manager =
     \<lparr>connections = [], user_sessions = [], session_watchers = [], user_roles = []\<rparr>"

subsection \<open>Private helpers\<close>

definition get_user_role :: "role_lookup \<Rightarrow> user_id \<Rightarrow> role" where
  "get_user_role get_effective_role user =
     (case get_effective_role user of
        Inr r \<Rightarrow> r
      | Inl e \<Rightarrow> ''mentorado'')"

definition get_session_user_id :: "owner_lookup \<Rightarrow> session_id \<Rightarrow> user_id option" where
  "get_session_user_id query sid =
     (case query sid of
        Inr result \<Rightarrow> result
      | Inl e \<Rightarrow> None)"

subsection \<open>connect\<close>

text \<open>\<open>if session_id:\<close> is false for \<open>None\<close> and for the empty string.\<close>

definition connect ::
  "role_lookup \<Rightarrow> user_id \<Rightarrow> websocket \<Rightarrow> session_id option \<Rightarrow> connection_manager
     \<Rightarrow> error + connection_manager" where
  "connect get_effective_role user ws sid_opt st =
     (let st1 = (if \<not> py_in user (connections st)
                 then st\<lparr>connections := py_setitem user [] (connections st),
                         user_roles := py_setitem user (get_user_role get_effective_role user)
                                         (user_roles st)\<rparr>
                 else st)
      in case py_getitem user (connections st1) of
           Inl e \<Rightarrow> Inl e
         | Inr sockets \<Rightarrow>
             (let st2 = st1\<lparr>connections := py_setitem user (sockets @ [ws]) (connections st1)\<rparr>
              in case sid_opt of
                   None \<Rightarrow> Inr st2
                 | Some sid \<Rightarrow>
                     if sid = [] then Inr st2
                     else
                       (let st3 = (if \<not> py_in user (user_sessions st2)
                                   then st2\<lparr>user_sessions :=
                                               py_setitem user [] (user_sessions st2)\<rparr>
                                   else st2)
                        in case py_getitem user (user_sessions st3) of
                             Inl e \<Rightarrow> Inl e
                           | Inr m \<Rightarrow>
                               Inr (st3\<lparr>user_sessions :=
                                          py_setitem user (py_setitem sid ws m)
                                            (user_sessions st3)\<rparr>))))"

subsection \<open>disconnect\<close>

text \<open>
  The three blocks of \<open>disconnect\<close>, in the source's order. In the first one
  \<open>ValueError\<close> can only come from \<open>remove\<close>, the first statement of the \<open>try\<close>, so
  the handler resumes from the unchanged state; any other exception is not caught.
\<close>

definition disconnect_connections ::
  "user_id \<Rightarrow> websocket \<Rightarrow> connection_manager \<Rightarrow> error + connection_manager" where
  "disconnect_connections user ws st =
     (if py_in user (connections st) then
        (case
           (case py_getitem user (connections st) of
              Inl e \<Rightarrow> Inl e
            | Inr sockets \<Rightarrow>
                (case py_remove ws sockets of
                   Inl e \<Rightarrow> Inl e
                 | Inr sockets' \<Rightarrow>
                     (let st1 = st\<lparr>connections := py_setitem user sockets' (connections st)\<rparr>;
                          remaining = length sockets'
                      in if remaining = 0 then
                           (case py_delitem user (connections st1) of
                              Inl e \<Rightarrow> Inl e
                            | Inr c \<Rightarrow>
                                (let st2 = st1\<lparr>connections := c\<rparr>
                                 in if py_in user (user_roles st2) then
                                      (case py_delitem user (user_roles st2) of
                                         Inl e \<Rightarrow> Inl e
                                       | Inr r \<Rightarrow> Inr (st2\<lparr>user_roles := r\<rparr>))
                                    else Inr st2))
                         else Inr st1)))
         of
           Inl ValueError \<Rightarrow> Inr st
         | Inl e \<Rightarrow> Inl e
         | Inr st' \<Rightarrow> Inr st')
      else Inr st)"

fun del_sessions ::
  "session_id list \<Rightarrow> (session_id, websocket) dict \<Rightarrow> error + (session_id, websocket) dict" where
  "del_sessions [] m = Inr m"
| "del_sessions (sid # rest) m =
     (case py_delitem sid m of
        Inl e \<Rightarrow> Inl e
      | Inr m' \<Rightarrow> del_sessions rest m')"

definition disconnect_sessions ::
  "user_id \<Rightarrow> websocket \<Rightarrow> connection_manager \<Rightarrow> error + connection_manager" where
  "disconnect_sessions user ws st =
     (if py_in user (user_sessions st) then
        (case py_getitem user (user_sessions st) of
           Inl e \<Rightarrow> Inl e
         | Inr m \<Rightarrow>
             (let to_remove = map fst (filter (\<lambda>(sid, w). w = ws) m)
              in case del_sessions to_remove m of
                   Inl e \<Rightarrow> Inl e
                 | Inr m' \<Rightarrow>
                     (let st1 = st\<lparr>user_sessions := py_setitem user m' (user_sessions st)\<rparr>
                      in if m' = [] then
                           (case py_delitem user (user_sessions st1) of
                              Inl e \<Rightarrow> Inl e
                            | Inr us \<Rightarrow> Inr (st1\<lparr>user_sessions := us\<rparr>))
                         else Inr st1)))
      else Inr st)"

text \<open>
  The watcher loop runs over a snapshot \<open>list(self.session_watchers.items())\<close>; each
  \<open>watchers\<close> of the snapshot is the list object stored under its key, so
  \<open>watchers.remove(user_id)\<close> rewrites the entry of the live dict.
\<close>

fun disconnect_watchers ::
  "user_id \<Rightarrow> (session_id, user_id list) dict \<Rightarrow> (session_id, user_id list) dict
     \<Rightarrow> error + (session_id, user_id list) dict" where
  "disconnect_watchers user [] sw = Inr sw"
| "disconnect_watchers user ((sid, watchers) # rest) sw =
     (if user \<in> set watchers then
        (case py_remove user watchers of
           Inl e \<Rightarrow> Inl e
         | Inr watchers' \<Rightarrow>
             (let sw1 = py_setitem sid watchers' sw
              in if watchers' = [] then
                   (case py_delitem sid sw1 of
                      Inl e \<Rightarrow> Inl e
                    | Inr sw2 \<Rightarrow> disconnect_watchers user rest sw2)
                 else disconnect_watchers user rest sw1))
      else disconnect_watchers user rest sw)"

definition disconnect ::
  "user_id \<Rightarrow> websocket \<Rightarrow> connection_manager \<Rightarrow> error + connection_manager" where
  "disconnect user ws st =
     (case disconnect_connections user ws st of
        Inl e \<Rightarrow> Inl e
      | Inr st1 \<Rightarrow>
          (case disconnect_sessions user ws st1 of
             Inl e \<Rightarrow> Inl e
           | Inr st2 \<Rightarrow>
               (case disconnect_watchers user (session_watchers st2) (session_watchers st2) of
                  Inl e \<Rightarrow> Inl e
                | Inr sw \<Rightarrow> Inr (st2\<lparr>session_watchers := sw\<rparr>))))"

subsection \<open>Reads\<close>

definition get_online_users :: "connection_manager \<Rightarrow> user_id list" where
  "get_online_users st = map fst (connections st)"

definition get_session_watchers :: "session_id \<Rightarrow> connection_manager \<Rightarrow> user_id list" where
  "get_session_watchers sid st = py_get sid [] (session_watchers st)"

definition is_user_online :: "user_id \<Rightarrow> connection_manager \<Rightarrow> bool" where
  "is_user_online user st = py_in user (connections st)"

definition get_connection_count :: "connection_manager \<Rightarrow> nat" where
  "get_connection_count st = sum_list (map (\<lambda>(user, sockets). length sockets) (connections st))"

definition get_online_users_count :: "connection_manager \<Rightarrow> nat" where
  "get_online_users_count st = length (connections st)"

subsection \<open>send_to_user\<close>

text \<open>
  The result carries the \<open>send_json\<close> calls made, in order. A call \<open>(ws, m)\<close> delivered
  \<open>m\<close> exactly when \<open>send_json ws m\<close> did not raise.
\<close>

fun disconnect_dead ::
  "user_id \<Rightarrow> websocket list \<Rightarrow> connection_manager \<Rightarrow> error + connection_manager" where
  "disconnect_dead user [] st = Inr st"
| "disconnect_dead user (ws # rest) st =
     (case disconnect user ws st of
        Inl e \<Rightarrow> Inl e
      | Inr st' \<Rightarrow> disconnect_dead user rest st')"

definition send_to_user ::
  "transport \<Rightarrow> user_id \<Rightarrow> message \<Rightarrow> connection_manager
     \<Rightarrow> error + (connection_manager \<times> (websocket \<times> message) list)" where
  "send_to_user send_json user msg st =
     (if \<not> py_in user (connections st) then Inr (st, [])
      else
        (case py_getitem user (connections st) of
           Inl e \<Rightarrow> Inl e
         | Inr sockets \<Rightarrow>
             (let dead_sockets = filter (\<lambda>ws. isl (send_json ws msg)) sockets
              in case disconnect_dead user dead_sockets st of
                   Inl e \<Rightarrow> Inl e
                 | Inr st' \<Rightarrow> Inr (st', map (\<lambda>ws. (ws, msg)) sockets))))"

subsection \<open>Watchers\<close>

definition add_session_watcher ::
  "session_id \<Rightarrow> user_id \<Rightarrow> connection_manager \<Rightarrow> error + connection_manager" where
  "add_session_watcher sid admin st =
     (let sw1 = (if \<not> py_in sid (session_watchers st)
                 then py_setitem sid [] (session_watchers st)
                 else session_watchers st)
      in case py_getitem sid sw1 of
           Inl e \<Rightarrow> Inl e
         | Inr watchers \<Rightarrow>
             if admin \<notin> set watchers
             then Inr (st\<lparr>session_watchers := py_setitem sid (watchers @ [admin]) sw1\<rparr>)
             else Inr (st\<lparr>session_watchers := sw1\<rparr>))"

definition remove_session_watcher ::
  "session_id \<Rightarrow> user_id \<Rightarrow> connection_manager \<Rightarrow> error + connection_manager" where
  "remove_session_watcher sid admin st =
     (if py_in sid (session_watchers st) \<and> admin \<in> set (py_get sid [] (session_watchers st))
      then
        (case py_getitem sid (session_watchers st) of
           Inl e \<Rightarrow> Inl e
         | Inr watchers \<Rightarrow>
             (case py_remove admin watchers of
                Inl e \<Rightarrow> Inl e
              | Inr watchers' \<Rightarrow>
                  (let sw1 = py_setitem sid watchers' (session_watchers st)
                   in if watchers' = [] then
                        (case py_delitem sid sw1 of
                           Inl e \<Rightarrow> Inl e
                         | Inr sw2 \<Rightarrow> Inr (st\<lparr>session_watchers := sw2\<rparr>))
                      else Inr (st\<lparr>session_watchers := sw1\<rparr>))))
      else Inr st)"

subsection \<open>Broadcast targets\<close>

text \<open>
  \<open>broadcast_to_role\<close> builds \<open>target_users\<close> from the role cache and
  \<open>broadcast_all\<close> takes the keys of \<open>connections\<close>; each then starts one
  \<open>send_to_user\<close> task per target and gathers them.
\<close>

definition broadcast_to_role_targets :: "role \<Rightarrow> connection_manager \<Rightarrow> user_id list" where
  "broadcast_to_role_targets role st =
     map fst (filter (\<lambda>(user, user_role). user_role = role \<or> role = ''all'') (user_roles st))"

definition broadcast_all_targets :: "connection_manager \<Rightarrow> user_id list" where
  "broadcast_all_targets st = map fst (connections st)"

subsection \<open>Shutdown\<close>

text \<open>
  \<open>disconnect_all\<close> calls \<open>close\<close> on every socket, ignoring what it raises, and clears
  the four dicts; the result is the cleared state and the sockets closed.
\<close>

definition disconnect_all :: "connection_manager \<Rightarrow> connection_manager \<times> websocket list" where
  "disconnect_all st =
     (\<lparr>connections = [], user_sessions = [], session_watchers = [], user_roles = []\<rparr>,
      concat (map snd (connections st)))"

section \<open>PresenceService (core/presence_service.py)\<close>

text \<open>
  The table \<open>user_presence\<close> has \<open>user_id\<close> as primary key, so it is a map from user
  to row. \<open>update_presence\<close> runs one SQL statement whose right-hand sides read the row
  as it was before the statement. \<open>conn\<close> is false when \<open>get_db_connection()\<close> gives
  nothing (the method returns at once); \<open>now\<close> is \<open>datetime.now().isoformat()\<close>.
\<close>

record presence_row =
  is_online :: int
  last_seen :: string
  connected_at :: string
  connection_count :: int

type_synonym user_presence = "user_id \<rightharpoonup> presence_row"

definition update_presence ::
  "bool \<Rightarrow> string \<Rightarrow> user_id \<Rightarrow> bool \<Rightarrow> user_presence \<Rightarrow> user_presence" where
  "update_presence conn now user online tbl =
     (if \<not> conn then tbl
      else if online then
        (case tbl user of
           None \<Rightarrow>
             tbl(user \<mapsto> \<lparr>is_online = 1, last_seen = now, connected_at = now,
                            connection_count = 1\<rparr>)
         | Some row \<Rightarrow>
             tbl(user \<mapsto> row\<lparr>is_online := 1, last_seen := now,
                               connection_count := connection_count row + 1\<rparr>))
      else
        (case tbl user of
           None \<Rightarrow> tbl
         | Some row \<Rightarrow>
             tbl(user \<mapsto> row\<lparr>connection_count := max 0 (connection_count row - 1),
                               is_online := (if connection_count row - 1 \<le> 0 then 0 else 1),
                               last_seen := now\<rparr>)))"

section \<open>Well-formed states\<close>

text \<open>
  \<open>dicts_ok\<close> says that the association lists are dicts: no key occurs twice.
  \<open>strip_watcher\<close> is what the watcher block of \<open>disconnect\<close> computes on a dict.
\<close>

fun strip_watcher :: "user_id \<Rightarrow> (session_id, user_id list) dict \<Rightarrow> (session_id, user_id list) dict" where
  "strip_watcher user [] = []"
| "strip_watcher user ((sid, watchers) # rest) =
     (if user \<in> set watchers \<and> remove1 user watchers = [] then strip_watcher user rest
      else (sid, remove1 user watchers) # strip_watcher user rest)"

definition dicts_ok :: "connection_manager \<Rightarrow> bool" where
  "dicts_ok st \<longleftrightarrow>
     distinct (map fst (connections st)) \<and>
     distinct (map fst (user_sessions st)) \<and>
     (\<forall>(user, m) \<in> set (user_sessions st). distinct (map fst m)) \<and>
     distinct (map fst (session_watchers st)) \<and>
     distinct (map fst (user_roles st))"

text \<open>
  \<open>drop_connection\<close> and \<open>drop_sessions\<close> are what the first two blocks of
  \<open>disconnect\<close> compute on a dict. \<open>conns_ok\<close> and \<open>watchers_ok\<close> are the
  invariants of the registry and of the watcher index; \<open>reachable\<close> is the set of
  states the hub gets into from the empty one, with any collaborators.
\<close>

definition drop_connection :: "user_id \<Rightarrow> websocket \<Rightarrow> connection_manager \<Rightarrow> connection_manager" where
  "drop_connection user ws st =
     (case map_of (connections st) user of
        None \<Rightarrow> st
      | Some sockets \<Rightarrow>
          if ws \<in> set sockets then
            (if remove1 ws sockets = []
             then st\<lparr>connections := AList.delete user (connections st),
                     user_roles := AList.delete user (user_roles st)\<rparr>
             else st\<lparr>connections := AList.update user (remove1 ws sockets) (connections st)\<rparr>)
          else st)"

definition drop_sessions :: "user_id \<Rightarrow> websocket \<Rightarrow> connection_manager \<Rightarrow> connection_manager" where
  "drop_sessions user ws st =
     (case map_of (user_sessions st) user of
        None \<Rightarrow> st
      | Some m \<Rightarrow>
          if filter (\<lambda>(sid, w). w \<noteq> ws) m = []
          then st\<lparr>user_sessions := AList.delete user (user_sessions st)\<rparr>
          else st\<lparr>user_sessions :=
                    AList.update user (filter (\<lambda>(sid, w). w \<noteq> ws) m) (user_sessions st)\<rparr>)"

definition conns_ok :: "connection_manager \<Rightarrow> bool" where
  "conns_ok st \<longleftrightarrow>
     (\<forall>(user, sockets) \<in> set (connections st). sockets \<noteq> []) \<and>
     set (map fst (user_roles st)) = set (map fst (connections st))"

definition watchers_ok :: "connection_manager \<Rightarrow> bool" where
  "watchers_ok st \<longleftrightarrow>
     (\<forall>(sid, watchers) \<in> set (session_watchers st). watchers \<noteq> [] \<and> distinct watchers)"

definition hub_inv :: "connection_manager \<Rightarrow> bool" where
  "hub_inv st \<longleftrightarrow> dicts_ok st \<and> conns_ok st \<and> watchers_ok st"

inductive reachable :: "connection_manager \<Rightarrow> bool" where
  r_init: "reachable init_connection_manager"
| r_connect: "reachable st \<Longrightarrow> connect lk user ws sid_opt st = Inr st' \<Longrightarrow> reachable st'"
| r_disconnect: "reachable st \<Longrightarrow> disconnect user ws st = Inr st' \<Longrightarrow> reachable st'"
| r_send_to_user:
    "reachable st \<Longrightarrow> send_to_user send_json user msg st = Inr (st', calls) \<Longrightarrow> reachable st'"
| r_add_watcher: "reachable st \<Longrightarrow> add_session_watcher sid admin st = Inr st' \<Longrightarrow> reachable st'"
| r_remove_watcher:
    "reachable st \<Longrightarrow> remove_session_watcher sid admin st = Inr st' \<Longrightarrow> reachable st'"
| r_shutdown: "reachable st \<Longrightarrow> reachable (fst (disconnect_all st))"

section \<open>Dict lemmas\<close>

lemma py_in_map_of: "py_in k d \<longleftrightarrow> map_of d k \<noteq> None"
  by (simp add: py_in_def map_of_eq_None_iff)

lemma py_getitem_Inr: "py_getitem k d = Inr v \<longleftrightarrow> map_of d k = Some v"
  by (simp add: py_getitem_def split: option.splits)

lemma map_of_setitem: "map_of (py_setitem k v d) = (map_of d)(k \<mapsto> v)"
  by (simp add: py_setitem_def update_conv')

lemma py_in_setitem: "py_in k (py_setitem k' v d) \<longleftrightarrow> k = k' \<or> py_in k d"
  by (auto simp: py_in_map_of map_of_setitem)

lemma py_delitem_setitem: "py_delitem k (py_setitem k v d) = Inr (AList.delete k d)"
  by (simp add: py_delitem_def py_in_setitem) (simp add: py_setitem_def delete_update_same)

lemma delete_absent: "map_of d k = None \<Longrightarrow> AList.delete k d = d"
  by (simp add: map_of_eq_None_iff)

lemma disconnect_connections_eq:
  "disconnect_connections user ws st =
     Inr (case map_of (connections st) user of
            None \<Rightarrow> st
          | Some sockets \<Rightarrow>
              if ws \<in> set sockets then
                (if remove1 ws sockets = []
                 then st\<lparr>connections := AList.delete user (connections st),
                         user_roles := AList.delete user (user_roles st)\<rparr>
                 else st\<lparr>connections := AList.update user (remove1 ws sockets) (connections st)\<rparr>)
              else st)"
proof (cases "map_of (connections st) user")
  case None
  then show ?thesis
    by (simp add: disconnect_connections_def py_in_map_of)
next
  case (Some sockets)
  show ?thesis
  proof (cases "ws \<in> set sockets")
    case False
    with Some show ?thesis
      by (simp add: disconnect_connections_def py_in_map_of py_getitem_def py_remove_def)
  next
    case True
    show ?thesis
    proof (cases "remove1 ws sockets = []")
      case False
      with True Some show ?thesis
        by (simp add: disconnect_connections_def py_in_map_of py_getitem_def py_remove_def
              Let_def py_setitem_def)
    next
      case e: True
      have "user_roles st = AList.delete user (user_roles st)" if "map_of (user_roles st) user = None"
        using that by (simp add: delete_absent)
      with e True Some show ?thesis
        by (simp add: disconnect_connections_def py_in_map_of[of user "connections st"]
              py_in_map_of[of user "user_roles st"] py_getitem_def py_remove_def
              Let_def py_delitem_setitem py_delitem_def[of user "user_roles st"])
    qed
  qed
qed

lemma delete_append_fresh:
  "k \<notin> fst ` set pre \<Longrightarrow> k \<notin> fst ` set post \<Longrightarrow> AList.delete k (pre @ (k, v) # post) = pre @ post"
  by (induct pre) auto

lemma update_append_fresh:
  "k \<notin> fst ` set pre \<Longrightarrow> AList.update k v' (pre @ (k, v) # post) = pre @ (k, v') # post"
  by (induct pre) auto

lemma del_sessions_filter_aux:
  "distinct (map fst (pre @ m)) \<Longrightarrow>
   del_sessions (map fst (filter P m)) (pre @ m) = Inr (pre @ filter (\<lambda>p. \<not> P p) m)"
proof (induction m arbitrary: pre)
  case Nil
  then show ?case by simp
next
  case (Cons p m)
  obtain k v where p: "p = (k, v)" by (cases p)
  from Cons.prems p have fresh: "k \<notin> fst ` set pre" "k \<notin> fst ` set m"
    by auto
  show ?case
  proof (cases "P p")
    case True
    have "py_delitem k (pre @ (k, v) # m) = Inr (pre @ m)"
      using fresh by (simp add: py_delitem_def py_in_def delete_append_fresh)
    moreover have "distinct (map fst (pre @ m))"
      using Cons.prems by simp
    ultimately show ?thesis
      using True p Cons.IH[of pre] by simp
  next
    case False
    have "distinct (map fst ((pre @ [p]) @ m))"
      using Cons.prems by simp
    from Cons.IH[OF this] False show ?thesis by simp
  qed
qed

lemma del_sessions_filter:
  "distinct (map fst m) \<Longrightarrow>
   del_sessions (map fst (filter P m)) m = Inr (filter (\<lambda>p. \<not> P p) m)"
  using del_sessions_filter_aux[of "[]" m P] by simp

lemma disconnect_sessions_eq:
  assumes "\<forall>(u, m) \<in> set (user_sessions st). distinct (map fst m)"
  shows "disconnect_sessions user ws st =
     Inr (case map_of (user_sessions st) user of
            None \<Rightarrow> st
          | Some m \<Rightarrow>
              if filter (\<lambda>(sid, w). w \<noteq> ws) m = []
              then st\<lparr>user_sessions := AList.delete user (user_sessions st)\<rparr>
              else st\<lparr>user_sessions :=
                        AList.update user (filter (\<lambda>(sid, w). w \<noteq> ws) m) (user_sessions st)\<rparr>)"
proof (cases "map_of (user_sessions st) user")
  case None
  then show ?thesis
    by (simp add: disconnect_sessions_def py_in_map_of)
next
  case (Some m)
  then have "(user, m) \<in> set (user_sessions st)"
    by (rule map_of_SomeD)
  with assms have "distinct (map fst m)" by auto
  then have d: "del_sessions (map fst (filter (\<lambda>(sid, w). w = ws) m)) m
      = Inr (filter (\<lambda>(sid, w). w \<noteq> ws) m)"
    by (simp add: del_sessions_filter case_prod_unfold)
  show ?thesis
    using Some d
    by (simp add: disconnect_sessions_def py_in_map_of py_getitem_def Let_def py_delitem_setitem)
       (simp add: py_setitem_def)
qed

lemma disconnect_watchers_aux:
  "distinct (map fst (pre @ snap)) \<Longrightarrow>
   disconnect_watchers user snap (pre @ snap) = Inr (pre @ strip_watcher user snap)"
proof (induction snap arbitrary: pre)
  case Nil
  then show ?case by simp
next
  case (Cons p snap)
  obtain sid ws where p: "p = (sid, ws)" by (cases p)
  from Cons.prems p have fresh: "sid \<notin> fst ` set pre" "sid \<notin> fst ` set snap"
    by auto
  have d1: "distinct (map fst (pre @ snap))"
    using Cons.prems by simp
  show ?case
  proof (cases "user \<in> set ws")
    case False
    have "distinct (map fst ((pre @ [p]) @ snap))"
      using Cons.prems by simp
    from Cons.IH[OF this] False p show ?thesis
      by (simp add: remove1_idem)
  next
    case True
    show ?thesis
    proof (cases "remove1 user ws = []")
      case e: True
      have "py_delitem sid (py_setitem sid [] (pre @ (sid, ws) # snap)) = Inr (pre @ snap)"
        using fresh by (simp add: py_delitem_setitem delete_append_fresh)
      with True e p Cons.IH[OF d1] show ?thesis
        by (simp add: py_remove_def)
    next
      case ne: False
      have u: "py_setitem sid (remove1 user ws) (pre @ (sid, ws) # snap)
                 = (pre @ [(sid, remove1 user ws)]) @ snap"
        using fresh by (simp add: py_setitem_def update_append_fresh)
      have "distinct (map fst ((pre @ [(sid, remove1 user ws)]) @ snap))"
        using Cons.prems p by simp
      from Cons.IH[OF this] True ne p u show ?thesis
        by (simp add: py_remove_def)
    qed
  qed
qed

lemma disconnect_watchers_eq:
  "distinct (map fst sw) \<Longrightarrow> disconnect_watchers user sw sw = Inr (strip_watcher user sw)"
  using disconnect_watchers_aux[of "[]" sw user] by simp

lemma disconnect_watchers_total: "\<exists>sw'. disconnect_watchers user snap sw = Inr sw'"
  by (induction user snap sw rule: disconnect_watchers.induct)
     (auto simp: py_remove_def py_delitem_setitem Let_def)

lemma connect_eq:
  "connect lk user ws sid_opt st =
     Inr (st\<lparr>connections :=
               AList.update user (py_get user [] (connections st) @ [ws]) (connections st),
             user_roles :=
               (if py_in user (connections st) then user_roles st
                else AList.update user (get_user_role lk user) (user_roles st)),
             user_sessions :=
               (case sid_opt of
                  None \<Rightarrow> user_sessions st
                | Some sid \<Rightarrow>
                    if sid = [] then user_sessions st
                    else AList.update user (AList.update sid ws (py_get user [] (user_sessions st)))
                           (user_sessions st))\<rparr>)"
proof -
  have c: "py_in user (connections st) \<Longrightarrow>
        py_getitem user (connections st) = Inr (py_get user [] (connections st))"
    by (auto simp: py_in_map_of py_getitem_def py_get_def)
  have nc: "\<not> py_in user (connections st) \<Longrightarrow> py_get user [] (connections st) = []"
    by (auto simp: py_in_map_of py_get_def)
  have s: "py_in user (user_sessions st) \<Longrightarrow>
        py_getitem user (user_sessions st) = Inr (py_get user [] (user_sessions st))"
    by (auto simp: py_in_map_of py_getitem_def py_get_def)
  have ns: "\<not> py_in user (user_sessions st) \<Longrightarrow> py_get user [] (user_sessions st) = []"
    by (auto simp: py_in_map_of py_get_def)
  have g: "\<And>v d. py_getitem user (py_setitem user v d) = Inr v"
    by (simp add: py_getitem_def map_of_setitem)
  show ?thesis
  proof (cases "py_in user (connections st)")
    case True
    show ?thesis
    proof (cases "py_in user (user_sessions st)")
      case t: True
      show ?thesis
        using True t c s
        by (simp add: connect_def Let_def split: option.splits) (simp add: py_setitem_def)
    next
      case f: False
      show ?thesis
        using True f c ns
        by (simp add: connect_def Let_def g split: option.splits) (simp add: py_setitem_def)
    qed
  next
    case False
    show ?thesis
    proof (cases "py_in user (user_sessions st)")
      case t: True
      show ?thesis
        using False t nc s
        by (simp add: connect_def Let_def g split: option.splits) (simp add: py_setitem_def)
    next
      case f: False
      show ?thesis
        using False f nc ns
        by (simp add: connect_def Let_def g split: option.splits) (simp add: py_setitem_def)
    qed
  qed
qed

section \<open>The operations on well-formed states\<close>

lemma disconnect_eq:
  assumes "dicts_ok st"
  shows "disconnect user ws st =
     Inr ((drop_sessions user ws (drop_connection user ws st))
            \<lparr>session_watchers := strip_watcher user (session_watchers st)\<rparr>)"
proof -
  have c: "disconnect_connections user ws st = Inr (drop_connection user ws st)"
    by (simp add: disconnect_connections_eq drop_connection_def)
  have us: "user_sessions (drop_connection user ws st) = user_sessions st"
    by (simp add: drop_connection_def split: option.splits)
  have sw: "session_watchers (drop_sessions user ws (drop_connection user ws st)) = session_watchers st"
    by (simp add: drop_connection_def drop_sessions_def split: option.splits)
  have "\<forall>(u, m) \<in> set (user_sessions (drop_connection user ws st)). distinct (map fst m)"
    using assms us by (simp add: dicts_ok_def)
  then have s: "disconnect_sessions user ws (drop_connection user ws st)
      = Inr (drop_sessions user ws (drop_connection user ws st))"
    by (simp add: disconnect_sessions_eq drop_sessions_def)
  have w: "disconnect_watchers user (session_watchers st) (session_watchers st)
      = Inr (strip_watcher user (session_watchers st))"
    using assms by (simp add: disconnect_watchers_eq dicts_ok_def)
  show ?thesis
    by (simp add: disconnect_def c s sw w)
qed

lemma add_session_watcher_eq:
  "add_session_watcher sid admin st =
     Inr (if admin \<in> set (py_get sid [] (session_watchers st)) then st
          else st\<lparr>session_watchers :=
                    AList.update sid (py_get sid [] (session_watchers st) @ [admin])
                      (session_watchers st)\<rparr>)"
proof (cases "map_of (session_watchers st) sid")
  case None
  then show ?thesis
    by (simp add: add_session_watcher_def py_in_map_of py_getitem_def map_of_setitem py_get_def)
       (simp add: py_setitem_def)
next
  case (Some ws)
  then show ?thesis
    by (simp add: add_session_watcher_def py_in_map_of py_getitem_def py_get_def)
       (simp add: py_setitem_def)
qed

lemma remove_session_watcher_eq:
  "remove_session_watcher sid admin st =
     Inr (if admin \<in> set (py_get sid [] (session_watchers st)) then
            (if remove1 admin (py_get sid [] (session_watchers st)) = []
             then st\<lparr>session_watchers := AList.delete sid (session_watchers st)\<rparr>
             else st\<lparr>session_watchers :=
                       AList.update sid (remove1 admin (py_get sid [] (session_watchers st)))
                         (session_watchers st)\<rparr>)
          else st)"
proof (cases "map_of (session_watchers st) sid")
  case None
  then show ?thesis
    by (simp add: remove_session_watcher_def py_in_map_of py_get_def)
next
  case (Some ws)
  then show ?thesis
    by (simp add: remove_session_watcher_def py_in_map_of py_getitem_def py_get_def py_remove_def
          Let_def py_delitem_setitem)
       (simp add: py_setitem_def)
qed

lemma set_update_subset: "set (AList.update k v al) \<subseteq> insert (k, v) (set al)"
  by (induct al) auto

lemma set_delete_subset: "set (AList.delete k al) \<subseteq> set al"
  by (induct al) auto

lemma keys_update: "set (map fst (AList.update k v al)) = insert k (set (map fst al))"
  using dom_update[of k v al] by simp

lemma keys_delete: "set (map fst (AList.delete k al)) = set (map fst al) - {k}"
  by (simp add: delete_keys)

lemma strip_watcher_keys: "fst ` set (strip_watcher user sw) \<subseteq> fst ` set sw"
  by (induction user sw rule: strip_watcher.induct) auto

lemma strip_watcher_distinct:
  "distinct (map fst sw) \<Longrightarrow> distinct (map fst (strip_watcher user sw))"
proof (induction user sw rule: strip_watcher.induct)
  case (1 user)
  then show ?case by simp
next
  case (2 user sid watchers rest)
  then show ?case
    using strip_watcher_keys[of user rest] by auto
qed

lemma strip_watcher_entries:
  "(sid, ws') \<in> set (strip_watcher user sw) \<Longrightarrow>
   \<exists>ws. (sid, ws) \<in> set sw \<and> ws' = remove1 user ws \<and> \<not> (user \<in> set ws \<and> ws' = [])"
  by (induction user sw rule: strip_watcher.induct) (auto split: if_splits)

lemma map_of_strip_watcher:
  "distinct (map fst sw) \<Longrightarrow>
   map_of (strip_watcher user sw) sid =
     (case map_of sw sid of
        None \<Rightarrow> None
      | Some ws \<Rightarrow> if user \<in> set ws \<and> remove1 user ws = [] then None else Some (remove1 user ws))"
proof (induction user sw rule: strip_watcher.induct)
  case (1 user)
  then show ?case by simp
next
  case (2 user s watchers rest)
  have "map_of rest s = None"
    using "2.prems" by (simp add: map_of_eq_None_iff)
  then have "map_of (strip_watcher user rest) s = None"
    using strip_watcher_keys[of user rest] by (auto simp: map_of_eq_None_iff)
  with 2 show ?case by (auto split: option.splits)
qed

lemma strip_watcher_id:
  "\<forall>(sid, ws) \<in> set sw. user \<notin> set ws \<Longrightarrow> strip_watcher user sw = sw"
  by (induction user sw rule: strip_watcher.induct) (auto simp: remove1_idem)

section \<open>The invariant is kept\<close>

lemma in_set_updateD: "(a, b) \<in> set (AList.update k v al) \<Longrightarrow> (a, b) = (k, v) \<or> (a, b) \<in> set al"
  using set_update_subset[of k v al] by blast

lemma in_set_deleteD: "(a, b) \<in> set (AList.delete k al) \<Longrightarrow> (a, b) \<in> set al"
  using set_delete_subset[of k al] by blast

lemma vals_update:
  "P v \<Longrightarrow> \<forall>(a, b) \<in> set al. P b \<Longrightarrow> \<forall>(a, b) \<in> set (AList.update k v al). P b"
  by (auto dest!: in_set_updateD)

lemma vals_delete:
  "\<forall>(a, b) \<in> set al. P b \<Longrightarrow> \<forall>(a, b) \<in> set (AList.delete k al). P b"
  by (auto dest!: in_set_deleteD)

lemma vals_py_get:
  "P dflt \<Longrightarrow> \<forall>(a, b) \<in> set al. P b \<Longrightarrow> P (py_get k dflt al)"
  by (auto simp: py_get_def split: option.splits dest!: map_of_SomeD)

lemma conns_ok_cong:
  "connections st' = connections st \<Longrightarrow> user_roles st' = user_roles st \<Longrightarrow> conns_ok st' = conns_ok st"
  by (simp add: conns_ok_def)

lemma watchers_ok_cong:
  "session_watchers st' = session_watchers st \<Longrightarrow> watchers_ok st' = watchers_ok st"
  by (simp add: watchers_ok_def)

lemma hub_inv_init: "hub_inv init_connection_manager"
  by (simp add: hub_inv_def dicts_ok_def conns_ok_def watchers_ok_def init_connection_manager_def)

lemma connect_fields:
  assumes "connect lk user ws sid_opt st = Inr st'"
  shows "connections st' =
           AList.update user (py_get user [] (connections st) @ [ws]) (connections st)"
    and "user_roles st' = (if py_in user (connections st) then user_roles st
                else AList.update user (get_user_role lk user) (user_roles st))"
    and "session_watchers st' = session_watchers st"
    and "user_sessions st' =
           (case sid_opt of
              None \<Rightarrow> user_sessions st
            | Some sid \<Rightarrow>
                if sid = [] then user_sessions st
                else AList.update user (AList.update sid ws (py_get user [] (user_sessions st)))
                       (user_sessions st))"
  using assms by (auto simp: connect_eq)

lemma dicts_ok_connect:
  assumes "dicts_ok st" and "connect lk user ws sid_opt st = Inr st'"
  shows "dicts_ok st'"
proof -
  note f = connect_fields[OF assms(2)]
  have old: "\<forall>(u, m) \<in> set (user_sessions st). distinct (map fst m)"
    using assms(1) by (simp add: dicts_ok_def)
  have inner: "distinct (map fst (py_get user [] (user_sessions st)))"
    using old by (intro vals_py_get[where P = "\<lambda>m. distinct (map fst m)"]) simp_all
  have upd: "\<forall>(u, m) \<in> set (AList.update user (AList.update sid ws (py_get user [] (user_sessions st)))
            (user_sessions st)). distinct (map fst m)" for sid
    using old inner by (intro vals_update[where P = "\<lambda>m. distinct (map fst m)"]) (simp_all add: distinct_update)
  have 1: "distinct (map fst (connections st'))"
    using assms(1) by (simp add: f dicts_ok_def distinct_update)
  have 2: "distinct (map fst (user_roles st'))"
    using assms(1) by (simp add: f dicts_ok_def distinct_update)
  have 3: "distinct (map fst (session_watchers st'))"
    using assms(1) by (simp add: f dicts_ok_def)
  have 4: "distinct (map fst (user_sessions st'))"
    using assms(1) by (simp add: f dicts_ok_def distinct_update split: option.splits)
  have 5: "\<forall>(u, m) \<in> set (user_sessions st'). distinct (map fst m)"
    unfolding f using old upd by (simp split: option.splits)
  show ?thesis
    using 1 2 3 4 5 by (simp add: dicts_ok_def)
qed

lemma conns_ok_connect:
  assumes "conns_ok st" and "connect lk user ws sid_opt st = Inr st'"
  shows "conns_ok st'"
proof -
  note f = connect_fields[OF assms(2)]
  have ne: "\<forall>(u, sockets) \<in> set (connections st'). sockets \<noteq> []"
    unfolding f using assms(1)
    by (intro vals_update[where P = "\<lambda>s. s \<noteq> []"]) (simp_all add: conns_ok_def)
  have k: "set (map fst (user_roles st')) = set (map fst (connections st'))"
    using assms(1) by (auto simp: f conns_ok_def keys_update py_in_def simp del: set_map)
  show ?thesis
    using ne k by (simp add: conns_ok_def)
qed

lemma hub_inv_connect:
  assumes "hub_inv st" and "connect lk user ws sid_opt st = Inr st'"
  shows "hub_inv st'"
  using assms dicts_ok_connect[OF _ assms(2)] conns_ok_connect[OF _ assms(2)]
    watchers_ok_cong[OF connect_fields(3)[OF assms(2)]]
  by (simp add: hub_inv_def)

lemma drop_connection_fields [simp]:
  "user_sessions (drop_connection user ws st) = user_sessions st"
  "session_watchers (drop_connection user ws st) = session_watchers st"
  by (simp_all add: drop_connection_def split: option.splits)

lemma drop_sessions_fields [simp]:
  "connections (drop_sessions user ws st) = connections st"
  "user_roles (drop_sessions user ws st) = user_roles st"
  "session_watchers (drop_sessions user ws st) = session_watchers st"
  by (simp_all add: drop_sessions_def split: option.splits)

lemma drop_connection_keys:
  "distinct (map fst (connections st)) \<Longrightarrow> distinct (map fst (connections (drop_connection user ws st)))"
  "distinct (map fst (user_roles st)) \<Longrightarrow> distinct (map fst (user_roles (drop_connection user ws st)))"
  by (simp_all add: drop_connection_def distinct_update distinct_delete split: option.splits)

lemma drop_sessions_keys:
  assumes "distinct (map fst (user_sessions st))"
    and "\<forall>(u, m) \<in> set (user_sessions st). distinct (map fst m)"
  shows "distinct (map fst (user_sessions (drop_sessions user ws st)))"
    and "\<forall>(u, m) \<in> set (user_sessions (drop_sessions user ws st)). distinct (map fst m)"
proof -
  show "distinct (map fst (user_sessions (drop_sessions user ws st)))"
    using assms(1) by (simp add: drop_sessions_def distinct_update distinct_delete split: option.splits)
  show "\<forall>(u, m) \<in> set (user_sessions (drop_sessions user ws st)). distinct (map fst m)"
  proof (cases "map_of (user_sessions st) user")
    case None
    then show ?thesis using assms(2) by (simp add: drop_sessions_def)
  next
    case (Some m)
    then have "distinct (map fst m)"
      using assms(2) by (auto dest!: map_of_SomeD)
    then have dm: "distinct (map fst (filter (\<lambda>(sid, w). w \<noteq> ws) m))"
      by (simp add: distinct_map_filter)
    show ?thesis
    proof (cases "filter (\<lambda>(sid, w). w \<noteq> ws) m = []")
      case True
      with Some show ?thesis
        using vals_delete[OF assms(2), of user] by (simp add: drop_sessions_def)
    next
      case False
      with Some show ?thesis
        using vals_update[where P = "\<lambda>m. distinct (map fst m)", OF dm assms(2), of user]
        by (simp add: drop_sessions_def)
    qed
  qed
qed

lemma disconnect_fields:
  assumes "dicts_ok st" and "disconnect user ws st = Inr st'"
  shows "connections st' = connections (drop_connection user ws st)"
    and "user_roles st' = user_roles (drop_connection user ws st)"
    and "user_sessions st' = user_sessions (drop_sessions user ws st)"
    and "session_watchers st' = strip_watcher user (session_watchers st)"
proof -
  have st': "st' = (drop_sessions user ws (drop_connection user ws st))
            \<lparr>session_watchers := strip_watcher user (session_watchers st)\<rparr>"
    using assms by (simp add: disconnect_eq)
  show "connections st' = connections (drop_connection user ws st)"
    and "user_roles st' = user_roles (drop_connection user ws st)"
    and "session_watchers st' = strip_watcher user (session_watchers st)"
    by (simp_all add: st')
  show "user_sessions st' = user_sessions (drop_sessions user ws st)"
    by (simp add: st' drop_sessions_def split: option.splits)
qed

lemma dicts_ok_disconnect:
  assumes "dicts_ok st" and "disconnect user ws st = Inr st'"
  shows "dicts_ok st'"
proof -
  note f = disconnect_fields[OF assms]
  show ?thesis
    using assms(1) drop_sessions_keys[of st user ws]
    by (simp add: dicts_ok_def f drop_connection_keys strip_watcher_distinct)
qed

lemma conns_ok_drop_connection:
  assumes "conns_ok st"
  shows "conns_ok (drop_connection user ws st)"
proof (cases "map_of (connections st) user")
  case None
  then show ?thesis using assms by (simp add: drop_connection_def)
next
  case (Some sockets)
  then have in_keys: "user \<in> set (map fst (connections st))"
    by (auto dest!: map_of_SomeD intro: rev_image_eqI)
  have old: "\<forall>(u, s) \<in> set (connections st). s \<noteq> []"
    and keys: "set (map fst (user_roles st)) = set (map fst (connections st))"
    using assms by (simp_all add: conns_ok_def)
  show ?thesis
  proof (cases "ws \<in> set sockets")
    case False
    with Some assms show ?thesis by (simp add: drop_connection_def)
  next
    case True
    show ?thesis
    proof (cases "remove1 ws sockets = []")
      case e: True
      have "\<forall>(u, s) \<in> set (AList.delete user (connections st)). s \<noteq> []"
        by (rule vals_delete[OF old])
      then show ?thesis
        using Some True e keys
        by (simp add: drop_connection_def conns_ok_def keys_delete del: set_map)
    next
      case ne: False
      have "\<forall>(u, s) \<in> set (AList.update user (remove1 ws sockets) (connections st)). s \<noteq> []"
        by (rule vals_update[where P = "\<lambda>s. s \<noteq> []", OF ne old])
      then show ?thesis
        using Some True ne keys in_keys
        by (simp add: drop_connection_def conns_ok_def keys_update insert_absorb del: set_map)
    qed
  qed
qed

lemma conns_ok_disconnect:
  assumes "dicts_ok st" and "conns_ok st" and "disconnect user ws st = Inr st'"
  shows "conns_ok st'"
  using conns_ok_drop_connection[OF assms(2), of user ws]
    conns_ok_cong[of st' "drop_connection user ws st"] disconnect_fields(1,2)[OF assms(1,3)]
  by simp

lemma watchers_ok_disconnect:
  assumes "dicts_ok st" and "watchers_ok st" and "disconnect user ws st = Inr st'"
  shows "watchers_ok st'"
proof -
  have "ws' \<noteq> [] \<and> distinct ws'" if "(sid, ws') \<in> set (strip_watcher user (session_watchers st))"
    for sid ws'
  proof -
    from strip_watcher_entries[OF that] obtain ws0 where
      ws0: "(sid, ws0) \<in> set (session_watchers st)" "ws' = remove1 user ws0"
        "\<not> (user \<in> set ws0 \<and> ws' = [])"
      by blast
    from ws0(1) assms(2) have "ws0 \<noteq> [] \<and> distinct ws0"
      by (auto simp: watchers_ok_def)
    with ws0(2,3) show ?thesis
      by (cases "user \<in> set ws0") (auto simp: remove1_idem)
  qed
  then show ?thesis
    by (auto simp: watchers_ok_def disconnect_fields(4)[OF assms(1,3)])
qed

lemma hub_inv_disconnect:
  assumes "hub_inv st" and "disconnect user ws st = Inr st'"
  shows "hub_inv st'"
  using assms dicts_ok_disconnect[OF _ assms(2)] conns_ok_disconnect[OF _ _ assms(2)]
    watchers_ok_disconnect[OF _ _ assms(2)]
  by (simp add: hub_inv_def)

lemma hub_inv_disconnect_dead:
  "hub_inv st \<Longrightarrow> disconnect_dead user dead st = Inr st' \<Longrightarrow> hub_inv st'"
proof (induction dead arbitrary: st)
  case Nil
  then show ?case by simp
next
  case (Cons ws dead)
  then show ?case
    by (auto split: sum.splits dest: hub_inv_disconnect)
qed

lemma hub_inv_send_to_user:
  "hub_inv st \<Longrightarrow> send_to_user send_json user msg st = Inr (st', calls) \<Longrightarrow> hub_inv st'"
  by (auto simp: send_to_user_def Let_def split: if_splits sum.splits dest: hub_inv_disconnect_dead)

lemma watchers_update_inv:
  assumes "hub_inv st" and "ws' \<noteq> []" and "distinct ws'"
  shows "hub_inv (st\<lparr>session_watchers := AList.update sid ws' (session_watchers st)\<rparr>)"
proof -
  have "\<forall>(s, w) \<in> set (AList.update sid ws' (session_watchers st)). w \<noteq> [] \<and> distinct w"
    using assms by (intro vals_update[where P = "\<lambda>w. w \<noteq> [] \<and> distinct w"])
      (simp_all add: hub_inv_def watchers_ok_def)
  then show ?thesis
    using assms(1) by (simp add: hub_inv_def watchers_ok_def dicts_ok_def conns_ok_def distinct_update)
qed

lemma watchers_delete_inv:
  assumes "hub_inv st"
  shows "hub_inv (st\<lparr>session_watchers := AList.delete sid (session_watchers st)\<rparr>)"
proof -
  have "\<forall>(s, w) \<in> set (AList.delete sid (session_watchers st)). w \<noteq> [] \<and> distinct w"
    using assms by (intro vals_delete[where P = "\<lambda>w. w \<noteq> [] \<and> distinct w"])
      (simp_all add: hub_inv_def watchers_ok_def)
  then show ?thesis
    using assms(1) by (simp add: hub_inv_def watchers_ok_def dicts_ok_def conns_ok_def distinct_delete)
qed

lemma watchers_distinct:
  "hub_inv st \<Longrightarrow> distinct (py_get sid [] (session_watchers st))"
  by (intro vals_py_get[where P = distinct]) (auto simp: hub_inv_def watchers_ok_def)

lemma hub_inv_add_session_watcher:
  assumes "hub_inv st" and "add_session_watcher sid admin st = Inr st'"
  shows "hub_inv st'"
proof (cases "admin \<in> set (py_get sid [] (session_watchers st))")
  case True
  with assms show ?thesis by (simp add: add_session_watcher_eq)
next
  case False
  with assms watchers_distinct[OF assms(1), of sid]
    watchers_update_inv[OF assms(1), of "py_get sid [] (session_watchers st) @ [admin]" sid]
  show ?thesis
    by (simp add: add_session_watcher_eq)
qed

lemma hub_inv_remove_session_watcher:
  assumes "hub_inv st" and "remove_session_watcher sid admin st = Inr st'"
  shows "hub_inv st'"
proof (cases "admin \<in> set (py_get sid [] (session_watchers st))")
  case False
  with assms show ?thesis by (simp add: remove_session_watcher_eq)
next
  case True
  show ?thesis
  proof (cases "remove1 admin (py_get sid [] (session_watchers st)) = []")
    case e: True
    with True assms watchers_delete_inv[OF assms(1), of sid] show ?thesis
      by (simp add: remove_session_watcher_eq)
  next
    case ne: False
    with True assms watchers_distinct[OF assms(1), of sid]
      watchers_update_inv[OF assms(1) ne, of sid]
    show ?thesis
      by (simp add: remove_session_watcher_eq)
  qed
qed

lemma hub_inv_disconnect_all: "hub_inv (fst (disconnect_all st))"
  by (simp add: disconnect_all_def hub_inv_def dicts_ok_def conns_ok_def watchers_ok_def)

lemma reachable_hub_inv: "reachable st \<Longrightarrow> hub_inv st"
proof (induction rule: reachable.induct)
  case r_init
  show ?case by (rule hub_inv_init)
next
  case (r_connect st lk user ws sid_opt st')
  then show ?case by (blast intro: hub_inv_connect)
next
  case (r_disconnect st user ws st')
  then show ?case by (blast intro: hub_inv_disconnect)
next
  case (r_send_to_user st send_json user msg st' calls)
  then show ?case by (blast intro: hub_inv_send_to_user)
next
  case (r_add_watcher st sid admin st')
  then show ?case by (blast intro: hub_inv_add_session_watcher)
next
  case (r_remove_watcher st sid admin st')
  then show ?case by (blast intro: hub_inv_remove_session_watcher)
next
  case (r_shutdown st)
  show ?case by (rule hub_inv_disconnect_all)
qed

lemma count_update:
  "sum_list (map (\<lambda>(u, s). length s) (AList.update k v al)) + length (py_get k [] al)
     = sum_list (map (\<lambda>(u, s). length s) al) + length v"
  by (induct al) (auto simp: py_get_def)

lemma py_get_update: "py_get k d (AList.update k' v al) = (if k = k' then v else py_get k d al)"
  by (simp add: py_get_def update_conv')

lemma dicts_ok_disconnect_dead:
  "dicts_ok st \<Longrightarrow> \<exists>st'. disconnect_dead user dead st = Inr st' \<and> dicts_ok st'"
proof (induction dead arbitrary: st)
  case Nil
  then show ?case by simp
next
  case (Cons ws dead)
  from Cons.prems obtain st1 where 1: "disconnect user ws st = Inr st1"
    by (auto simp: disconnect_eq)
  with Cons.prems have "dicts_ok st1"
    by (blast intro: dicts_ok_disconnect)
  from Cons.IH[OF this] 1 show ?case by simp
qed

lemma not_isl_unit: "\<not> isl (r :: error + unit) \<Longrightarrow> r = Inr ()"
  by (cases r) auto

lemma disconnect_registered:
  assumes "dicts_ok st" and "map_of (connections st) user = Some sockets"
    and "ws \<in> set sockets" and "remove1 ws sockets \<noteq> []"
  shows "\<exists>st'. disconnect user ws st = Inr st' \<and>
           py_getitem user (connections st') = Inr (remove1 ws sockets)"
proof -
  obtain st' where d: "disconnect user ws st = Inr st'"
    using assms(1) by (simp add: disconnect_eq)
  have "connections st' = AList.update user (remove1 ws sockets) (connections st)"
    using disconnect_fields(1)[OF assms(1) d] assms(2-4) by (simp add: drop_connection_def)
  then show ?thesis
    using d by (simp add: py_getitem_def update_conv')
qed

lemma watchers_after_disconnect:
  assumes "dicts_ok st" and "disconnect user ws st = Inr st'"
  shows "get_session_watchers sid st' = remove1 user (get_session_watchers sid st)"
proof -
  have d: "distinct (map fst (session_watchers st))"
    using assms(1) by (simp add: dicts_ok_def)
  show ?thesis
    by (simp add: get_session_watchers_def py_get_def disconnect_fields(4)[OF assms]
          map_of_strip_watcher[OF d] split: option.splits)
qed


lemma remove1_last_copy: "count_list xs x \<le> 1 \<Longrightarrow> x \<notin> set (remove1 x xs)"
  by (induct xs) (auto simp: count_list_0_iff split: if_splits)

lemma drop_connection_absent:
  "\<forall>sockets. map_of (connections st) user = Some sockets \<longrightarrow> ws \<notin> set sockets \<Longrightarrow>
   drop_connection user ws st = st"
  by (simp add: drop_connection_def split: option.splits)

lemma drop_sessions_absent:
  "\<forall>m. map_of (user_sessions st) user = Some m \<longrightarrow> m \<noteq> [] \<and> (\<forall>(sid, w) \<in> set m. w \<noteq> ws) \<Longrightarrow>
   drop_sessions user ws st = st"
proof (cases "map_of (user_sessions st) user")
  case None
  then show ?thesis by (simp add: drop_sessions_def)
next
  case (Some m)
  assume "\<forall>m. map_of (user_sessions st) user = Some m \<longrightarrow> m \<noteq> [] \<and> (\<forall>(sid, w) \<in> set m. w \<noteq> ws)"
  with Some have ne: "m \<noteq> []" and all: "\<forall>(sid, w) \<in> set m. w \<noteq> ws"
    by auto
  from all have "filter (\<lambda>(sid, w). w \<noteq> ws) m = m"
    by (auto simp: filter_id_conv)
  with Some ne show ?thesis
    by (simp add: drop_sessions_def update_triv)
qed

section \<open>send_to_session\<close>

text \<open>
  The watcher loop of \<open>send_to_session\<close> iterates over the list object stored under
  the session while \<open>send_to_user\<close> may reap the admin just served, and \<open>disconnect\<close>
  then removes that admin from this very list. A Python list iterator keeps an index and
  compares it with the current length at every step, so the loop is a recursion on the
  index that reads the list of the current state; an entry deleted by \<open>disconnect\<close> was
  emptied first, which is what \<open>get_session_watchers\<close> gives for it. The loop ends
  because no watcher list ever gets longer than the longest one, \<open>watch_bound\<close>.
\<close>

definition watch_bound :: "connection_manager \<Rightarrow> nat" where
  "watch_bound st = Max (insert 0 ((\<lambda>(sid, watchers). length watchers) ` set (session_watchers st)))"

lemma watch_bound_le:
  "watch_bound st \<le> n \<longleftrightarrow> (\<forall>(sid, watchers) \<in> set (session_watchers st). length watchers \<le> n)"
  by (auto simp: watch_bound_def)

lemma watchers_le_bound: "length (get_session_watchers sid st) \<le> watch_bound st"
proof (cases "map_of (session_watchers st) sid")
  case None
  then show ?thesis by (simp add: get_session_watchers_def py_get_def)
next
  case (Some watchers)
  then have "(sid, watchers) \<in> set (session_watchers st)"
    by (rule map_of_SomeD)
  moreover have "\<forall>(s, w) \<in> set (session_watchers st). length w \<le> watch_bound st"
    using watch_bound_le[of st "watch_bound st"] by simp
  ultimately have "length watchers \<le> watch_bound st"
    by auto
  with Some show ?thesis by (simp add: get_session_watchers_def py_get_def)
qed

lemma disconnect_watchers_bound:
  "\<forall>(s, w) \<in> set snap. length w \<le> n \<Longrightarrow> \<forall>(s, w) \<in> set sw. length w \<le> n \<Longrightarrow>
   disconnect_watchers user snap sw = Inr sw' \<Longrightarrow> \<forall>(s, w) \<in> set sw'. length w \<le> n"
proof (induction snap arbitrary: sw)
  case Nil
  then show ?case by simp
next
  case (Cons p snap)
  obtain sid watchers where p: "p = (sid, watchers)"
    by (cases p)
  have rest: "\<forall>(s, w) \<in> set snap. length w \<le> n" and len: "length watchers \<le> n"
    using Cons.prems(1) p by auto
  show ?case
  proof (cases "user \<in> set watchers")
    case False
    with Cons.prems(3) p have "disconnect_watchers user snap sw = Inr sw'"
      by simp
    with rest Cons.prems(2) show ?thesis
      by (rule Cons.IH)
  next
    case True
    have l': "length (remove1 user watchers) \<le> n"
      using len True by (simp add: length_remove1)
    show ?thesis
    proof (cases "remove1 user watchers = []")
      case e: True
      have dl: "\<forall>(s, w) \<in> set (AList.delete sid sw). length w \<le> n"
        using Cons.prems(2) by (rule vals_delete)
      from Cons.prems(3) True e p
      have "disconnect_watchers user snap (AList.delete sid sw) = Inr sw'"
        by (simp add: py_remove_def py_delitem_setitem)
      with rest dl show ?thesis
        by (rule Cons.IH)
    next
      case ne: False
      have u: "\<forall>(s, w) \<in> set (AList.update sid (remove1 user watchers) sw). length w \<le> n"
        using l' Cons.prems(2) by (rule vals_update[where P = "\<lambda>w. length w \<le> n"])
      from Cons.prems(3) True ne p
      have "disconnect_watchers user snap (AList.update sid (remove1 user watchers) sw) = Inr sw'"
        by (simp add: py_remove_def py_setitem_def)
      with rest u show ?thesis
        by (rule Cons.IH)
    qed
  qed
qed

lemma disconnect_sessions_frame:
  "disconnect_sessions user ws st = Inr st' \<Longrightarrow> session_watchers st' = session_watchers st"
  by (auto simp: disconnect_sessions_def Let_def split: if_splits sum.splits)

lemma disconnect_connections_frame:
  "disconnect_connections user ws st = Inr st' \<Longrightarrow> session_watchers st' = session_watchers st"
  by (auto simp: disconnect_connections_eq split: option.splits if_splits)

lemma disconnect_bound:
  assumes "disconnect user ws st = Inr st'"
  shows "watch_bound st' \<le> watch_bound st"
proof -
  from assms obtain st1 st2 sw where
    1: "disconnect_connections user ws st = Inr st1" and
    2: "disconnect_sessions user ws st1 = Inr st2" and
    3: "disconnect_watchers user (session_watchers st2) (session_watchers st2) = Inr sw" and
    st': "st' = st2\<lparr>session_watchers := sw\<rparr>"
    by (auto simp: disconnect_def split: sum.splits)
  have eq: "session_watchers st2 = session_watchers st"
    using disconnect_connections_frame[OF 1] disconnect_sessions_frame[OF 2] by simp
  have b: "\<forall>(s, w) \<in> set (session_watchers st). length w \<le> watch_bound st"
    using watch_bound_le[of st "watch_bound st"] by simp
  have "\<forall>(s, w) \<in> set sw. length w \<le> watch_bound st"
    using disconnect_watchers_bound[OF _ _ 3] b eq by simp
  then show ?thesis
    by (simp add: watch_bound_le st')
qed

lemma disconnect_dead_bound:
  "disconnect_dead user dead st = Inr st' \<Longrightarrow> watch_bound st' \<le> watch_bound st"
proof (induction dead arbitrary: st)
  case Nil
  then show ?case by simp
next
  case (Cons ws dead)
  then obtain st1 where 1: "disconnect user ws st = Inr st1"
    and 2: "disconnect_dead user dead st1 = Inr st'"
    by (auto split: sum.splits)
  from Cons.IH[OF 2] disconnect_bound[OF 1] show ?case by simp
qed

lemma send_to_user_bound:
  "send_to_user send_json user msg st = Inr (st', calls) \<Longrightarrow> watch_bound st' \<le> watch_bound st"
  by (auto simp: send_to_user_def Let_def split: if_splits sum.splits dest: disconnect_dead_bound)

function send_to_watchers ::
  "transport \<Rightarrow> session_id \<Rightarrow> message \<Rightarrow> user_id option \<Rightarrow> nat \<Rightarrow> connection_manager
     \<Rightarrow> error + (connection_manager \<times> (websocket \<times> message) list)" where
  "send_to_watchers send_json sid msg exclude_user i st =
     (if i < length (get_session_watchers sid st) then
        (if Some (get_session_watchers sid st ! i) \<noteq> exclude_user then
           (case send_to_user send_json (get_session_watchers sid st ! i) msg st of
              Inl e \<Rightarrow> Inl e
            | Inr (st', calls) \<Rightarrow>
                (case send_to_watchers send_json sid msg exclude_user (i + 1) st' of
                   Inl e \<Rightarrow> Inl e
                 | Inr (st'', calls') \<Rightarrow> Inr (st'', calls @ calls')))
         else send_to_watchers send_json sid msg exclude_user (i + 1) st)
      else Inr (st, []))"
  by pat_completeness auto
termination
proof (relation "measure (\<lambda>(send_json, sid, msg, exclude_user, i, st). watch_bound st - i)")
  show "wf (measure (\<lambda>(send_json, sid, msg, exclude_user, i, st). watch_bound st - i))"
    by simp
next
  fix send_json :: transport and sid msg exclude_user i st x2 x y
  assume "i < length (get_session_watchers sid st)"
    and "send_to_user send_json (get_session_watchers sid st ! i) msg st = Inr x2"
    and "(x, y) = x2"
  then show "((send_json, sid, msg, exclude_user, i + 1, x), send_json, sid, msg, exclude_user, i, st)
       \<in> measure (\<lambda>(send_json, sid, msg, exclude_user, i, st). watch_bound st - i)"
    using send_to_user_bound[of send_json "get_session_watchers sid st ! i" msg st x y]
      watchers_le_bound[of sid st]
    by simp
next
  fix send_json :: transport and sid msg exclude_user i st
  assume "i < length (get_session_watchers sid st)"
  then show "((send_json, sid, msg, exclude_user, i + 1, st), send_json, sid, msg, exclude_user, i, st)
       \<in> measure (\<lambda>(send_json, sid, msg, exclude_user, i, st). watch_bound st - i)"
    using watchers_le_bound[of sid st] by simp
qed

declare send_to_watchers.simps [simp del]

text \<open>
  \<open>if not session_user_id\<close> is true for \<open>None\<close> and for the id 0. An
  \<open>exclude_user\<close> of \<open>None\<close> differs from every user id.
\<close>

definition send_to_session ::
  "owner_lookup \<Rightarrow> transport \<Rightarrow> session_id \<Rightarrow> message \<Rightarrow> user_id option \<Rightarrow> connection_manager
     \<Rightarrow> error + (connection_manager \<times> (websocket \<times> message) list)" where
  "send_to_session query send_json sid msg exclude_user st =
     (case get_session_user_id query sid of
        None \<Rightarrow> Inr (st, [])
      | Some session_user_id \<Rightarrow>
          if session_user_id = 0 then Inr (st, [])
          else
            (case (if Some session_user_id \<noteq> exclude_user
                   then send_to_user send_json session_user_id msg st
                   else Inr (st, [])) of
               Inl e \<Rightarrow> Inl e
             | Inr (st1, calls1) \<Rightarrow>
                 if py_in sid (session_watchers st1) then
                   (case send_to_watchers send_json sid msg exclude_user 0 st1 of
                      Inl e \<Rightarrow> Inl e
                    | Inr (st2, calls2) \<Rightarrow> Inr (st2, calls1 @ calls2))
                 else Inr (st1, calls1)))"






lemma send_to_watchers_stop:
  "\<not> i < length (get_session_watchers sid st) \<Longrightarrow>
   send_to_watchers send_json sid msg exclude_user i st = Inr (st, [])"
  by (subst send_to_watchers.simps) simp


lemma send_to_watchers_send:
  "i < length (get_session_watchers sid st) \<Longrightarrow>
   Some (get_session_watchers sid st ! i) \<noteq> exclude_user \<Longrightarrow>
   send_to_user send_json (get_session_watchers sid st ! i) msg st = Inr (st', calls) \<Longrightarrow>
   send_to_watchers send_json sid msg exclude_user (i + 1) st' = Inr (st'', calls') \<Longrightarrow>
   send_to_watchers send_json sid msg exclude_user i st = Inr (st'', calls @ calls')"
  by (subst send_to_watchers.simps) simp


section \<open>Presence counting\<close>

text \<open>
  C6. For a user whose presence row holds count \<open>c \<ge> 0\<close>, a disconnect update stores
  \<open>max 0 (c - 1)\<close>, sets the online flag to 1 exactly when the new count is positive
  (so it becomes 0 exactly when the count reaches 0), and stores the new last-seen time
  in either case; connected-at is untouched.
\<close>

theorem presence_disconnect_floor:
  assumes "tbl user = Some row" and "connection_count row = c" and "0 \<le> c"
  shows "\<exists>row'. update_presence True now user False tbl user = Some row' \<and>
           connection_count row' = max 0 (c - 1) \<and>
           (is_online row' = 1 \<longleftrightarrow> 0 < connection_count row') \<and>
           (is_online row' = 0 \<longleftrightarrow> connection_count row' = 0) \<and>
           last_seen row' = now \<and>
           connected_at row' = connected_at row"
  using assms by (auto simp: update_presence_def)

theorem presence_disconnect_floor_witness:
  "update_presence True ''t1'' 7 False
     (Map.empty(7 \<mapsto> \<lparr>is_online = 1, last_seen = ''t0'', connected_at = ''t0'',
                        connection_count = 1\<rparr>)) 7
   = Some \<lparr>is_online = 0, last_seen = ''t1'', connected_at = ''t0'', connection_count = 0\<rparr>"
  using presence_disconnect_floor[of "Map.empty(7 \<mapsto> \<lparr>is_online = 1, last_seen = ''t0'',
      connected_at = ''t0'', connection_count = 1\<rparr>)" 7
      "\<lparr>is_online = 1, last_seen = ''t0'', connected_at = ''t0'', connection_count = 1\<rparr>" 1 "''t1''"]
  by (simp add: update_presence_def)

section \<open>Role fallback\<close>

text \<open>
  C9. When the role lookup raises, whatever the exception, \<open>_get_user_role\<close> returns
  the default role \<open>mentorado\<close>; \<open>connect\<close> does not fail, the user is online
  afterwards, and on a first connection the user is registered with exactly this socket
  and cached with the default role.
\<close>

theorem role_lookup_failure_defaults:
  assumes "get_effective_role user = Inl e"
  shows "get_user_role get_effective_role user = ''mentorado'' \<and>
         (\<exists>st'. connect get_effective_role user ws sid_opt st = Inr st' \<and>
                is_user_online user st' \<and>
                (\<not> is_user_online user st \<longrightarrow>
                   py_getitem user (connections st') = Inr [ws] \<and>
                   py_getitem user (user_roles st') = Inr ''mentorado''))"
  using assms
  by (simp add: connect_eq is_user_online_def py_in_map_of py_getitem_def update_conv'
        get_user_role_def py_get_def)

theorem role_lookup_failure_defaults_witness:
  "get_user_role (\<lambda>u. Inl (OtherError ''db down'')) 5 = ''mentorado'' \<and>
   (\<exists>st'. connect (\<lambda>u. Inl (OtherError ''db down'')) 5 1 None init_connection_manager = Inr st' \<and>
          is_user_online 5 st' \<and>
          py_getitem 5 (connections st') = Inr [1] \<and>
          py_getitem 5 (user_roles st') = Inr ''mentorado'')"
  using role_lookup_failure_defaults[of "\<lambda>u. Inl (OtherError ''db down'')" 5 "OtherError ''db down''"
      1 None init_connection_manager]
  by (simp add: is_user_online_def py_in_def init_connection_manager_def)

section \<open>Registry invariant\<close>

text \<open>
  C2. In every state reachable from the empty hub by \<open>connect\<close>, \<open>disconnect\<close>,
  \<open>send_to_user\<close>, \<open>add_session_watcher\<close>, \<open>remove_session_watcher\<close> and
  \<open>disconnect_all\<close>: a user is online exactly when its connection list has positive
  length, no user maps to an empty list, and a user is in the role cache exactly when it
  is in \<open>connections\<close>.
\<close>

theorem online_iff_connected:
  assumes "reachable st"
  shows "(is_user_online user st \<longleftrightarrow> 0 < length (py_get user [] (connections st))) \<and>
         (\<forall>(u, sockets) \<in> set (connections st). sockets \<noteq> []) \<and>
         (py_in user (user_roles st) \<longleftrightarrow> py_in user (connections st))"
proof -
  from assms have c: "conns_ok st"
    using reachable_hub_inv by (simp add: hub_inv_def)
  have 1: "is_user_online user st \<longleftrightarrow> 0 < length (py_get user [] (connections st))"
  proof (cases "map_of (connections st) user")
    case None
    then show ?thesis
      by (simp add: is_user_online_def py_in_map_of py_get_def)
  next
    case (Some sockets)
    then have "(user, sockets) \<in> set (connections st)"
      by (rule map_of_SomeD)
    with c have "sockets \<noteq> []"
      by (auto simp: conns_ok_def)
    with Some show ?thesis
      by (simp add: is_user_online_def py_in_map_of py_get_def)
  qed
  have 2: "\<forall>(u, sockets) \<in> set (connections st). sockets \<noteq> []"
    using c by (simp add: conns_ok_def)
  have 3: "py_in user (user_roles st) \<longleftrightarrow> py_in user (connections st)"
    using c by (simp add: conns_ok_def py_in_def)
  from 1 2 3 show ?thesis by blast
qed

theorem online_iff_connected_witness:
  "reachable \<lparr>connections = [(1, [10])], user_sessions = [], session_watchers = [],
              user_roles = [(1, ''admin'')]\<rparr> \<and>
   is_user_online 1 \<lparr>connections = [(1, [10])], user_sessions = [], session_watchers = [],
              user_roles = [(1, ''admin'')]\<rparr> \<and>
   \<not> is_user_online 2 \<lparr>connections = [(1, [10])], user_sessions = [], session_watchers = [],
              user_roles = [(1, ''admin'')]\<rparr>"
proof -
  let ?st = "\<lparr>connections = [(1, [10])], user_sessions = [], session_watchers = [],
              user_roles = [(1, ''admin'')]\<rparr>"
  have "connect (\<lambda>u. Inr ''admin'') 1 10 None init_connection_manager = Inr ?st"
    by (simp add: connect_def init_connection_manager_def py_in_def py_setitem_def py_getitem_def
          get_user_role_def)
  then have r: "reachable ?st"
    by (rule reachable.r_connect[OF reachable.r_init])
  show ?thesis
    using r online_iff_connected[OF r, of 1] online_iff_connected[OF r, of 2]
    by (simp add: py_get_def)
qed

section \<open>Watcher index invariant\<close>

text \<open>
  C4. In every reachable state a session has an entry in \<open>session_watchers\<close> exactly
  when its watcher list is non-empty; removing the only watcher of a session, by
  \<open>remove_session_watcher\<close> or by that admin's \<open>disconnect\<close>, deletes the entry;
  adding an admin who already watches changes nothing, and adding twice is adding once.
\<close>

theorem watch_entry_iff_watched:
  assumes "reachable st"
  shows "(py_in sid (session_watchers st) \<longleftrightarrow> get_session_watchers sid st \<noteq> []) \<and>
         (get_session_watchers sid st = [admin] \<longrightarrow>
            (\<exists>st'. remove_session_watcher sid admin st = Inr st' \<and>
                   \<not> py_in sid (session_watchers st')) \<and>
            (\<exists>st'. disconnect admin ws st = Inr st' \<and> \<not> py_in sid (session_watchers st'))) \<and>
         (admin \<in> set (get_session_watchers sid st) \<longrightarrow> add_session_watcher sid admin st = Inr st) \<and>
         (\<exists>st1. add_session_watcher sid admin st = Inr st1 \<and>
                add_session_watcher sid admin st1 = Inr st1)"
proof -
  from assms have inv: "hub_inv st"
    by (rule reachable_hub_inv)
  then have ok: "dicts_ok st" and w: "watchers_ok st"
    by (simp_all add: hub_inv_def)
  have 1: "py_in sid (session_watchers st) \<longleftrightarrow> get_session_watchers sid st \<noteq> []"
  proof (cases "map_of (session_watchers st) sid")
    case None
    then show ?thesis
      by (simp add: get_session_watchers_def py_in_map_of py_get_def)
  next
    case (Some watchers)
    then have "(sid, watchers) \<in> set (session_watchers st)"
      by (rule map_of_SomeD)
    with w have "watchers \<noteq> []"
      by (auto simp: watchers_ok_def)
    with Some show ?thesis
      by (simp add: get_session_watchers_def py_in_map_of py_get_def)
  qed
  have 2: "(\<exists>st'. remove_session_watcher sid admin st = Inr st' \<and>
                   \<not> py_in sid (session_watchers st')) \<and>
            (\<exists>st'. disconnect admin ws st = Inr st' \<and> \<not> py_in sid (session_watchers st'))"
    if last: "get_session_watchers sid st = [admin]"
  proof
    show "\<exists>st'. remove_session_watcher sid admin st = Inr st' \<and> \<not> py_in sid (session_watchers st')"
      using last
      by (simp add: remove_session_watcher_eq get_session_watchers_def py_in_map_of delete_conv')
    from last have m: "map_of (session_watchers st) sid = Some [admin]"
      by (auto simp: get_session_watchers_def py_get_def split: option.splits)
    have "map_of (strip_watcher admin (session_watchers st)) sid = None"
      using ok m by (simp add: map_of_strip_watcher dicts_ok_def)
    then show "\<exists>st'. disconnect admin ws st = Inr st' \<and> \<not> py_in sid (session_watchers st')"
      using ok by (simp add: disconnect_eq py_in_map_of)
  qed
  have 3: "add_session_watcher sid admin st = Inr st"
    if "admin \<in> set (get_session_watchers sid st)"
    using that by (simp add: add_session_watcher_eq get_session_watchers_def)
  have 4: "\<exists>st1. add_session_watcher sid admin st = Inr st1 \<and>
                add_session_watcher sid admin st1 = Inr st1"
    by (simp add: add_session_watcher_eq py_get_def update_conv')
  from 1 2 3 4 show ?thesis by blast
qed

theorem watch_entry_iff_watched_witness:
  "reachable \<lparr>connections = [], user_sessions = [], session_watchers = [(''s'', [1])],
              user_roles = []\<rparr> \<and>
   get_session_watchers ''s'' \<lparr>connections = [], user_sessions = [],
              session_watchers = [(''s'', [1])], user_roles = []\<rparr> = [1] \<and>
   remove_session_watcher ''s'' 1 \<lparr>connections = [], user_sessions = [],
              session_watchers = [(''s'', [1])], user_roles = []\<rparr> = Inr init_connection_manager \<and>
   disconnect 1 10 \<lparr>connections = [], user_sessions = [],
              session_watchers = [(''s'', [1])], user_roles = []\<rparr> = Inr init_connection_manager"
proof -
  let ?st = "\<lparr>connections = [], user_sessions = [], session_watchers = [(''s'', [1])],
              user_roles = []\<rparr>"
  have "add_session_watcher ''s'' 1 init_connection_manager = Inr ?st"
    by (simp add: add_session_watcher_def init_connection_manager_def py_in_def py_setitem_def
          py_getitem_def)
  then have r: "reachable ?st"
    by (rule reachable.r_add_watcher[OF reachable.r_init])
  have g: "get_session_watchers ''s'' ?st = [1]"
    by (simp add: get_session_watchers_def py_get_def)
  show ?thesis
    using r g watch_entry_iff_watched[OF r, of "''s''" 1 10]
    by (simp add: remove_session_watcher_eq py_get_def disconnect_def disconnect_connections_def
          disconnect_sessions_def py_in_def py_remove_def py_setitem_def py_delitem_def
          init_connection_manager_def)
qed

section \<open>Broadcast targets\<close>

text \<open>
  C5. On a state whose role cache and connection mapping have the same users,
  \<open>broadcast_all\<close> and \<open>broadcast_to_role\<close> with role \<open>all\<close> target the same
  set of users, namely the online ones; for any other role the targets are the online
  users whose cached role is that role.
\<close>

theorem broadcast_all_is_role_all:
  assumes "dicts_ok st"
    and "\<forall>u. py_in u (user_roles st) \<longleftrightarrow> py_in u (connections st)"
  shows "set (broadcast_all_targets st) = set (broadcast_to_role_targets ''all'' st) \<and>
         set (broadcast_all_targets st) = {u. is_user_online u st} \<and>
         (role \<noteq> ''all'' \<longrightarrow>
            set (broadcast_to_role_targets role st)
              = {u. is_user_online u st \<and> py_getitem u (user_roles st) = Inr role})"
proof -
  have d: "distinct (map fst (user_roles st))"
    using assms(1) by (simp add: dicts_ok_def)
  have keys: "fst ` set (user_roles st) = fst ` set (connections st)"
    using assms(2) by (auto simp: py_in_def)
  have 1: "set (broadcast_all_targets st) = set (broadcast_to_role_targets ''all'' st)"
    using keys by (simp add: broadcast_all_targets_def broadcast_to_role_targets_def)
  have 2: "set (broadcast_all_targets st) = {u. is_user_online u st}"
    by (auto simp: broadcast_all_targets_def is_user_online_def py_in_def)
  have 3: "set (broadcast_to_role_targets role st)
              = {u. is_user_online u st \<and> py_getitem u (user_roles st) = Inr role}"
    if "role \<noteq> ''all''"
  proof -
    have "u \<in> set (broadcast_to_role_targets role st) \<longleftrightarrow> (u, role) \<in> set (user_roles st)" for u
      using that by (force simp: broadcast_to_role_targets_def)
    moreover have "(u, role) \<in> set (user_roles st) \<longleftrightarrow> py_getitem u (user_roles st) = Inr role" for u
      using d by (simp add: py_getitem_Inr)
    moreover have "is_user_online u st" if "(u, role) \<in> set (user_roles st)" for u
    proof -
      from that have "u \<in> fst ` set (user_roles st)"
        by (auto intro: rev_image_eqI)
      then show ?thesis
        using keys by (simp add: is_user_online_def py_in_def)
    qed
    ultimately show ?thesis by blast
  qed
  from 1 2 3 show ?thesis by blast
qed

theorem broadcast_all_is_role_all_witness:
  "dicts_ok \<lparr>connections = [(1, [10]), (2, [20]), (3, [30])], user_sessions = [],
             session_watchers = [],
             user_roles = [(1, ''admin''), (2, ''mentorado''), (3, ''admin'')]\<rparr> \<and>
   broadcast_to_role_targets ''admin''
      \<lparr>connections = [(1, [10]), (2, [20]), (3, [30])], user_sessions = [],
       session_watchers = [],
       user_roles = [(1, ''admin''), (2, ''mentorado''), (3, ''admin'')]\<rparr> = [1, 3] \<and>
   set (broadcast_to_role_targets ''all''
      \<lparr>connections = [(1, [10]), (2, [20]), (3, [30])], user_sessions = [],
       session_watchers = [],
       user_roles = [(1, ''admin''), (2, ''mentorado''), (3, ''admin'')]\<rparr>) = {1, 2, 3} \<and>
   set (broadcast_all_targets
      \<lparr>connections = [(1, [10]), (2, [20]), (3, [30])], user_sessions = [],
       session_watchers = [],
       user_roles = [(1, ''admin''), (2, ''mentorado''), (3, ''admin'')]\<rparr>) = {1, 2, 3}"
proof -
  let ?st = "\<lparr>connections = [(1, [10]), (2, [20]), (3, [30])], user_sessions = [],
       session_watchers = [],
       user_roles = [(1, ''admin''), (2, ''mentorado''), (3, ''admin'')]\<rparr>"
  have ok: "dicts_ok ?st"
    by (simp add: dicts_ok_def)
  have k: "\<forall>u. py_in u (user_roles ?st) \<longleftrightarrow> py_in u (connections ?st)"
    by (simp add: py_in_def)
  show ?thesis
    using ok broadcast_all_is_role_all[OF ok k, of "''admin''"]
    by (simp add: broadcast_to_role_targets_def broadcast_all_targets_def)
qed

section \<open>Registering one handle twice\<close>

text \<open>
  C10. Two \<open>connect\<close> calls with the same user and the same socket append the socket
  twice, so the connection count grows by two; one \<open>disconnect\<close> of that socket then
  removes a single occurrence: the user is still online, the handle is counted once more
  than before the two calls, and a user with no earlier connection keeps exactly one copy.
\<close>

theorem connect_same_handle_twice:
  assumes "dicts_ok st"
  shows "\<exists>st1 st2 st3.
           connect lk user ws sid1 st = Inr st1 \<and>
           connect lk user ws sid2 st1 = Inr st2 \<and>
           py_get user [] (connections st2) = py_get user [] (connections st) @ [ws, ws] \<and>
           get_connection_count st2 = get_connection_count st + 2 \<and>
           disconnect user ws st2 = Inr st3 \<and>
           is_user_online user st3 \<and>
           count_list (py_get user [] (connections st3)) ws
             = count_list (py_get user [] (connections st)) ws + 1 \<and>
           get_connection_count st3 = get_connection_count st + 1 \<and>
           (\<not> is_user_online user st \<longrightarrow> py_get user [] (connections st3) = [ws])"
proof -
  let ?old = "py_get user [] (connections st)"
  obtain st1 where 1: "connect lk user ws sid1 st = Inr st1"
    by (simp add: connect_eq)
  obtain st2 where 2: "connect lk user ws sid2 st1 = Inr st2"
    by (simp add: connect_eq)
  have ok2: "dicts_ok st2"
    using assms 1 2 by (blast intro: dicts_ok_connect)
  obtain st3 where 3: "disconnect user ws st2 = Inr st3"
    using ok2 by (simp add: disconnect_eq)
  have c1: "connections st1 = AList.update user (?old @ [ws]) (connections st)"
    using 1 by (rule connect_fields(1))
  have g1: "py_get user [] (connections st1) = ?old @ [ws]"
    by (simp add: c1 py_get_update)
  have c2: "connections st2 = AList.update user (?old @ [ws, ws]) (connections st1)"
    using connect_fields(1)[OF 2] g1 by simp
  have g2: "py_get user [] (connections st2) = ?old @ [ws, ws]"
    by (simp add: c2 py_get_update)
  have n1: "get_connection_count st1 = get_connection_count st + 1"
    using count_update[of user "?old @ [ws]" "connections st"]
    by (simp add: get_connection_count_def c1)
  have n2: "get_connection_count st2 = get_connection_count st + 2"
    using count_update[of user "?old @ [ws, ws]" "connections st1"] n1 g1
    by (simp add: get_connection_count_def c2)
  have m2: "map_of (connections st2) user = Some (?old @ [ws, ws])"
    by (simp add: c2 update_conv')
  have ne: "remove1 ws (?old @ [ws, ws]) \<noteq> []"
    by (simp add: remove1_append)
  have c3: "connections st3 = AList.update user (remove1 ws (?old @ [ws, ws])) (connections st2)"
    using disconnect_fields(1)[OF ok2 3] m2 ne by (simp add: drop_connection_def)
  have g3: "py_get user [] (connections st3) = remove1 ws (?old @ [ws, ws])"
    by (simp add: c3 py_get_update)
  have on3: "is_user_online user st3"
    by (simp add: is_user_online_def py_in_map_of c3 update_conv')
  have k3: "count_list (py_get user [] (connections st3)) ws = count_list ?old ws + 1"
    using count_list_0_iff[of ?old ws] by (auto simp: g3 remove1_append)
  have "length (remove1 ws (?old @ [ws, ws])) = length ?old + 1"
    by (simp add: length_remove1)
  then have n3: "get_connection_count st3 = get_connection_count st + 1"
    using count_update[of user "remove1 ws (?old @ [ws, ws])" "connections st2"] n2 g2
    by (simp add: get_connection_count_def c3)
  have f3: "py_get user [] (connections st3) = [ws]" if "\<not> is_user_online user st"
  proof -
    from that have "?old = []"
      by (auto simp: is_user_online_def py_in_map_of py_get_def)
    then show ?thesis by (simp add: g3)
  qed
  from 1 2 3 g2 n2 on3 k3 n3 f3 show ?thesis by blast
qed

theorem connect_same_handle_twice_witness:
  "dicts_ok init_connection_manager \<and>
   connect (\<lambda>u. Inr ''admin'') 1 10 None init_connection_manager =
     Inr \<lparr>connections = [(1, [10])], user_sessions = [], session_watchers = [],
          user_roles = [(1, ''admin'')]\<rparr> \<and>
   connect (\<lambda>u. Inr ''admin'') 1 10 None
       \<lparr>connections = [(1, [10])], user_sessions = [], session_watchers = [],
          user_roles = [(1, ''admin'')]\<rparr> =
     Inr \<lparr>connections = [(1, [10, 10])], user_sessions = [], session_watchers = [],
          user_roles = [(1, ''admin'')]\<rparr> \<and>
   get_connection_count \<lparr>connections = [(1, [10, 10])], user_sessions = [], session_watchers = [],
          user_roles = [(1, ''admin'')]\<rparr> = 2 \<and>
   disconnect 1 10 \<lparr>connections = [(1, [10, 10])], user_sessions = [], session_watchers = [],
          user_roles = [(1, ''admin'')]\<rparr> =
     Inr \<lparr>connections = [(1, [10])], user_sessions = [], session_watchers = [],
          user_roles = [(1, ''admin'')]\<rparr>"
proof -
  have ok: "dicts_ok init_connection_manager"
    by (simp add: dicts_ok_def init_connection_manager_def)
  show ?thesis
    using ok connect_same_handle_twice[OF ok, of "\<lambda>u. Inr ''admin''" 1 10 None None]
    by (simp add: connect_eq disconnect_eq dicts_ok_def init_connection_manager_def py_get_def
          py_in_def get_user_role_def get_connection_count_def drop_connection_def
          drop_sessions_def)
qed

section \<open>Fan-out to one user\<close>

text \<open>
  C1. For a user with three registered sockets, \<open>send_to_user\<close> calls \<open>send_json\<close>
  on all three; when exactly one call raises, the user is left with exactly the two
  sockets whose call succeeded. For a user who is not online the call changes nothing,
  sends nothing and does not raise.
\<close>

theorem send_to_user_fan_out:
  assumes "dicts_ok st"
  shows "(py_getitem user (connections st) = Inr [a, b, c] \<longrightarrow>
            (\<exists>st'. send_to_user send_json user msg st = Inr (st', [(a, msg), (b, msg), (c, msg)]) \<and>
               (length (filter (\<lambda>ws. isl (send_json ws msg)) [a, b, c]) = 1 \<longrightarrow>
                  (\<exists>sockets.
                     py_getitem user (connections st') = Inr sockets \<and>
                     length sockets = 2 \<and>
                     sockets = filter (\<lambda>ws. \<not> isl (send_json ws msg)) [a, b, c] \<and>
                     (\<forall>ws \<in> set sockets. send_json ws msg = Inr ()))))) \<and>
         (\<not> is_user_online user st \<longrightarrow> send_to_user send_json user msg st = Inr (st, []))"
proof
  show "py_getitem user (connections st) = Inr [a, b, c] \<longrightarrow>
            (\<exists>st'. send_to_user send_json user msg st = Inr (st', [(a, msg), (b, msg), (c, msg)]) \<and>
               (length (filter (\<lambda>ws. isl (send_json ws msg)) [a, b, c]) = 1 \<longrightarrow>
                  (\<exists>sockets.
                     py_getitem user (connections st') = Inr sockets \<and>
                     length sockets = 2 \<and>
                     sockets = filter (\<lambda>ws. \<not> isl (send_json ws msg)) [a, b, c] \<and>
                     (\<forall>ws \<in> set sockets. send_json ws msg = Inr ()))))"
  proof
    assume g: "py_getitem user (connections st) = Inr [a, b, c]"
    then have m: "map_of (connections st) user = Some [a, b, c]"
      by (simp add: py_getitem_Inr)
    then have inn: "py_in user (connections st)"
      by (simp add: py_in_map_of)
    let ?dead = "filter (\<lambda>ws. isl (send_json ws msg)) [a, b, c]"
    obtain st' where dd: "disconnect_dead user ?dead st = Inr st'"
      using dicts_ok_disconnect_dead[OF assms] by blast
    have s: "send_to_user send_json user msg st = Inr (st', [(a, msg), (b, msg), (c, msg)])"
      using inn g dd by (simp add: send_to_user_def)
    have one: "\<exists>sockets.
                 py_getitem user (connections st') = Inr sockets \<and>
                 length sockets = 2 \<and>
                 sockets = filter (\<lambda>ws. \<not> isl (send_json ws msg)) [a, b, c] \<and>
                 (\<forall>ws \<in> set sockets. send_json ws msg = Inr ())"
      if l: "length ?dead = 1"
    proof -
      from l obtain d where dead: "?dead = [d]"
        by (cases ?dead) auto
      have dm: "d \<in> set ?dead"
        unfolding dead by simp
      have dfail: "isl (send_json d msg)" and din: "d \<in> set [a, b, c]"
        using dm unfolding set_filter by blast+
      have rest: "remove1 d [a, b, c] = filter (\<lambda>ws. \<not> isl (send_json ws msg)) [a, b, c]"
        using dead by (auto split: if_splits)
      have len: "length (remove1 d [a, b, c]) = 2"
        using din by (simp only: length_remove1) simp
      then have ne: "remove1 d [a, b, c] \<noteq> []"
        by auto
      from dd dead have "disconnect user d st = Inr st'"
        by (simp split: sum.splits)
      with disconnect_registered[OF assms m din ne]
      have c': "py_getitem user (connections st') = Inr (remove1 d [a, b, c])"
        by auto
      have ok: "\<forall>ws \<in> set (remove1 d [a, b, c]). send_json ws msg = Inr ()"
        unfolding rest by (auto intro: not_isl_unit)
      from c' len rest ok show ?thesis by metis
    qed
    from s one show "\<exists>st'. send_to_user send_json user msg st = Inr (st', [(a, msg), (b, msg), (c, msg)]) \<and>
               (length (filter (\<lambda>ws. isl (send_json ws msg)) [a, b, c]) = 1 \<longrightarrow>
                  (\<exists>sockets.
                     py_getitem user (connections st') = Inr sockets \<and>
                     length sockets = 2 \<and>
                     sockets = filter (\<lambda>ws. \<not> isl (send_json ws msg)) [a, b, c] \<and>
                     (\<forall>ws \<in> set sockets. send_json ws msg = Inr ())))"
      by blast
  qed
  show "\<not> is_user_online user st \<longrightarrow> send_to_user send_json user msg st = Inr (st, [])"
    by (simp add: send_to_user_def is_user_online_def)
qed

theorem send_to_user_fan_out_witness:
  "dicts_ok \<lparr>connections = [(1, [10, 11, 12])], user_sessions = [], session_watchers = [],
             user_roles = [(1, ''admin'')]\<rparr> \<and>
   send_to_user (\<lambda>ws m. if ws = 11 then Inl (OtherError ''closed'') else Inr ()) 1 [(''type'', ''ping'')]
      \<lparr>connections = [(1, [10, 11, 12])], user_sessions = [], session_watchers = [],
        user_roles = [(1, ''admin'')]\<rparr>
   = Inr (\<lparr>connections = [(1, [10, 12])], user_sessions = [], session_watchers = [],
            user_roles = [(1, ''admin'')]\<rparr>,
          [(10, [(''type'', ''ping'')]), (11, [(''type'', ''ping'')]), (12, [(''type'', ''ping'')])]) \<and>
   send_to_user (\<lambda>ws m. Inr ()) 2 [(''type'', ''ping'')]
      \<lparr>connections = [(1, [10, 11, 12])], user_sessions = [], session_watchers = [],
        user_roles = [(1, ''admin'')]\<rparr>
   = Inr (\<lparr>connections = [(1, [10, 11, 12])], user_sessions = [], session_watchers = [],
            user_roles = [(1, ''admin'')]\<rparr>, [])"
proof -
  let ?st = "\<lparr>connections = [(1, [10, 11, 12])], user_sessions = [], session_watchers = [],
             user_roles = [(1, ''admin'')]\<rparr>"
  have ok: "dicts_ok ?st"
    by (simp add: dicts_ok_def)
  show ?thesis
    using ok
      send_to_user_fan_out[OF ok, of 1 10 11 12
        "\<lambda>ws m. if ws = 11 then Inl (OtherError ''closed'') else Inr ()" "[(''type'', ''ping'')]"]
      send_to_user_fan_out[OF ok, of 2 10 11 12 "\<lambda>ws m. Inr ()" "[(''type'', ''ping'')]"]
    by (simp add: send_to_user_def py_in_def py_getitem_def disconnect_eq drop_connection_def
          drop_sessions_def is_user_online_def)
qed

section \<open>When a watcher entry goes away\<close>




section \<open>Unregistering twice\<close>

text \<open>
  C7, as the code has it. When the socket occurs at most once in the user's connection
  list, \<open>disconnect\<close> does not raise and a second \<open>disconnect\<close> of the same user and
  socket returns the state the first one left.
\<close>

theorem unregister_idempotent:
  assumes "hub_inv st" and "count_list (py_get user [] (connections st)) ws \<le> 1"
  shows "\<exists>st1. disconnect user ws st = Inr st1 \<and> disconnect user ws st1 = Inr st1"
proof -
  from assms(1) have ok: "dicts_ok st"
    by (simp add: hub_inv_def)
  obtain st1 where d: "disconnect user ws st = Inr st1"
    using ok by (simp add: disconnect_eq)
  have inv1: "hub_inv st1"
    using assms(1) d by (rule hub_inv_disconnect)
  then have ok1: "dicts_ok st1"
    by (simp add: hub_inv_def)
  note f = disconnect_fields[OF ok d]
  have c1: "\<forall>sockets. map_of (connections st1) user = Some sockets \<longrightarrow> ws \<notin> set sockets"
  proof (intro allI impI)
    fix sockets
    assume s1: "map_of (connections st1) user = Some sockets"
    show "ws \<notin> set sockets"
    proof (cases "map_of (connections st) user")
      case None
      with s1 show ?thesis
        by (simp add: f drop_connection_def)
    next
      case (Some old)
      with assms(2) have cnt: "count_list old ws \<le> 1"
        by (simp add: py_get_def)
      show ?thesis
      proof (cases "ws \<in> set old")
        case False
        with Some s1 show ?thesis
          by (simp add: f drop_connection_def)
      next
        case True
        have "ws \<notin> set (remove1 ws old)"
          using cnt by (rule remove1_last_copy)
        with Some True s1 show ?thesis
          by (auto simp: f drop_connection_def update_conv' delete_conv' split: if_splits)
      qed
    qed
  qed
  have s1: "\<forall>m. map_of (user_sessions st1) user = Some m \<longrightarrow>
                m \<noteq> [] \<and> (\<forall>(sid, w) \<in> set m. w \<noteq> ws)"
    by (auto simp: f drop_sessions_def update_conv' delete_conv' split: option.splits if_splits)
  have w1: "\<forall>(sid, watchers) \<in> set (session_watchers st1). user \<notin> set watchers"
  proof -
    have "user \<notin> set ws'" if "(sid, ws') \<in> set (session_watchers st1)" for sid ws'
    proof -
      from that have "map_of (session_watchers st1) sid = Some ws'"
        using ok1 by (simp add: dicts_ok_def)
      then have "get_session_watchers sid st1 = ws'"
        by (simp add: get_session_watchers_def py_get_def)
      moreover have "distinct (get_session_watchers sid st)"
        using watchers_distinct[OF assms(1), of sid] by (simp add: get_session_watchers_def)
      ultimately show ?thesis
        using watchers_after_disconnect[OF ok d, of sid] by auto
    qed
    then show ?thesis by auto
  qed
  have "disconnect user ws st1 = Inr st1"
    by (simp add: disconnect_eq[OF ok1] drop_connection_absent[OF c1] drop_sessions_absent[OF s1]
          strip_watcher_id[OF w1])
  with d show ?thesis by blast
qed

theorem unregister_idempotent_witness:
  "hub_inv \<lparr>connections = [(1, [10, 11])], user_sessions = [(1, [(''s'', 10)])],
            session_watchers = [(''t'', [1, 2])], user_roles = [(1, ''admin'')]\<rparr> \<and>
   disconnect 1 10 \<lparr>connections = [(1, [10, 11])], user_sessions = [(1, [(''s'', 10)])],
            session_watchers = [(''t'', [1, 2])], user_roles = [(1, ''admin'')]\<rparr>
   = Inr \<lparr>connections = [(1, [11])], user_sessions = [],
            session_watchers = [(''t'', [2])], user_roles = [(1, ''admin'')]\<rparr> \<and>
   disconnect 1 10 \<lparr>connections = [(1, [11])], user_sessions = [],
            session_watchers = [(''t'', [2])], user_roles = [(1, ''admin'')]\<rparr>
   = Inr \<lparr>connections = [(1, [11])], user_sessions = [],
            session_watchers = [(''t'', [2])], user_roles = [(1, ''admin'')]\<rparr>"
proof -
  let ?st = "\<lparr>connections = [(1, [10, 11])], user_sessions = [(1, [(''s'', 10)])],
            session_watchers = [(''t'', [1, 2])], user_roles = [(1, ''admin'')]\<rparr>"
  have inv: "hub_inv ?st"
    by (simp add: hub_inv_def dicts_ok_def conns_ok_def watchers_ok_def)
  have c: "count_list (py_get 1 [] (connections ?st)) 10 \<le> 1"
    by (simp add: py_get_def)
  show ?thesis
    using inv unregister_idempotent[OF inv c]
    by (simp add: disconnect_eq dicts_ok_def drop_connection_def drop_sessions_def)
qed

text \<open>
  C7, as the claim states it, fails in the reachable state where socket 10 was registered
  twice: the first \<open>disconnect\<close> removes one copy, the second removes the other and
  with it the user's entry and cached role.
\<close>

theorem unregister_twice_counterexample:
  "reachable \<lparr>connections = [(1, [10, 10])], user_sessions = [], session_watchers = [],
              user_roles = [(1, ''admin'')]\<rparr> \<and>
   disconnect 1 10
     \<lparr>connections = [(1, [10, 10])], user_sessions = [], session_watchers = [],
      user_roles = [(1, ''admin'')]\<rparr>
   = Inr \<lparr>connections = [(1, [10])], user_sessions = [], session_watchers = [],
          user_roles = [(1, ''admin'')]\<rparr> \<and>
   disconnect 1 10
     \<lparr>connections = [(1, [10])], user_sessions = [], session_watchers = [],
      user_roles = [(1, ''admin'')]\<rparr>
   = Inr \<lparr>connections = [], user_sessions = [], session_watchers = [], user_roles = []\<rparr> \<and>
   disconnect 1 10
     \<lparr>connections = [(1, [10])], user_sessions = [], session_watchers = [],
      user_roles = [(1, ''admin'')]\<rparr>
   \<noteq> Inr \<lparr>connections = [(1, [10])], user_sessions = [], session_watchers = [],
          user_roles = [(1, ''admin'')]\<rparr>"
proof -
  let ?s1 = "\<lparr>connections = [(1, [10])], user_sessions = [], session_watchers = [],
              user_roles = [(1, ''admin'')]\<rparr>"
  let ?s2 = "\<lparr>connections = [(1, [10, 10])], user_sessions = [], session_watchers = [],
              user_roles = [(1, ''admin'')]\<rparr>"
  have "connect (\<lambda>u. Inr ''admin'') 1 10 None init_connection_manager = Inr ?s1"
    by (simp add: connect_eq init_connection_manager_def py_get_def py_in_def get_user_role_def)
  then have r1: "reachable ?s1"
    by (rule reachable.r_connect[OF reachable.r_init])
  have "connect (\<lambda>u. Inr ''admin'') 1 10 None ?s1 = Inr ?s2"
    by (simp add: connect_eq py_get_def py_in_def)
  then have r2: "reachable ?s2"
    by (rule reachable.r_connect[OF r1])
  show ?thesis
    using r2
    by (simp add: disconnect_def disconnect_connections_def disconnect_sessions_def py_getitem_def
        py_in_def py_remove_def py_setitem_def py_delitem_def)
qed

section \<open>Session routing\<close>



text \<open>
  With more than two watchers the loop can pass over one of them: here admin 2 is served
  first and reaped, \<open>disconnect\<close> removes it from the list being iterated, and the loop
  goes on at index 1 of the shortened list, which is admin 4; socket 30 of admin 3 is never
  called.
\<close>

lemma send_to_session_skips_after_reaping:
  "send_to_session (\<lambda>sid. Inr (Some 1))
      (\<lambda>ws m. if ws = 20 then Inl (OtherError ''closed'') else Inr ()) ''s'' [(''type'', ''msg'')]
      None
      \<lparr>connections = [(1, [10]), (2, [20, 21]), (3, [30]), (4, [40])], user_sessions = [],
        session_watchers = [(''s'', [2, 3, 4])],
        user_roles = [(1, ''mentorado''), (2, ''admin''), (3, ''admin''), (4, ''admin'')]\<rparr>
   = Inr (\<lparr>connections = [(1, [10]), (2, [21]), (3, [30]), (4, [40])], user_sessions = [],
        session_watchers = [(''s'', [3, 4])],
        user_roles = [(1, ''mentorado''), (2, ''admin''), (3, ''admin''), (4, ''admin'')]\<rparr>,
      [(10, [(''type'', ''msg'')]), (20, [(''type'', ''msg'')]), (21, [(''type'', ''msg'')]),
       (40, [(''type'', ''msg'')])])"
proof -
  let ?st = "\<lparr>connections = [(1, [10]), (2, [20, 21]), (3, [30]), (4, [40])], user_sessions = [],
        session_watchers = [(''s'', [2, 3, 4])],
        user_roles = [(1, ''mentorado''), (2, ''admin''), (3, ''admin''), (4, ''admin'')]\<rparr>"
  let ?st1 = "\<lparr>connections = [(1, [10]), (2, [21]), (3, [30]), (4, [40])], user_sessions = [],
        session_watchers = [(''s'', [3, 4])],
        user_roles = [(1, ''mentorado''), (2, ''admin''), (3, ''admin''), (4, ''admin'')]\<rparr>"
  let ?tr = "\<lambda>ws m. if ws = (20::nat) then Inl (OtherError ''closed'') else Inr ()"
  let ?m = "[(''type'', ''msg'')]"
  have ok: "dicts_ok ?st" "dicts_ok ?st1"
    by (simp_all add: dicts_ok_def)
  have g: "get_session_watchers ''s'' ?st = [2, 3, 4]" "get_session_watchers ''s'' ?st1 = [3, 4]"
    by (simp_all add: get_session_watchers_def py_get_def)
  have u1: "send_to_user ?tr 1 ?m ?st = Inr (?st, [(10, ?m)])"
    by (simp add: send_to_user_def py_in_def py_getitem_def)
  have u2: "send_to_user ?tr 2 ?m ?st = Inr (?st1, [(20, ?m), (21, ?m)])"
    by (simp add: send_to_user_def py_in_def py_getitem_def disconnect_eq[OF ok(1)]
          drop_connection_def drop_sessions_def)
  have u4: "send_to_user ?tr 4 ?m ?st1 = Inr (?st1, [(40, ?m)])"
    by (simp add: send_to_user_def py_in_def py_getitem_def)
  have l2: "send_to_watchers ?tr ''s'' ?m None 2 ?st1 = Inr (?st1, [])"
    using send_to_watchers_stop[where i = 2 and sid = "''s''" and st = ?st1] g
    by (simp add: numeral_2_eq_2)
  have l1: "send_to_watchers ?tr ''s'' ?m None 1 ?st1 = Inr (?st1, [(40, ?m)])"
    using send_to_watchers_send[where i = 1 and sid = "''s''" and st = ?st1 and st' = ?st1
        and st'' = ?st1 and calls = "[(40, ?m)]" and calls' = "[]"
        and exclude_user = "None" and send_json = ?tr and msg = ?m]
      g u4 l2
    by (simp add: numeral_2_eq_2)
  have l0: "send_to_watchers ?tr ''s'' ?m None 0 ?st = Inr (?st1, [(20, ?m), (21, ?m), (40, ?m)])"
    using send_to_watchers_send[where i = 0 and sid = "''s''" and st = ?st and st' = ?st1
        and st'' = ?st1 and calls = "[(20, ?m), (21, ?m)]" and calls' = "[(40, ?m)]"
        and exclude_user = "None" and send_json = ?tr and msg = ?m]
      g u2 l1
    by (simp add: numeral_2_eq_2)
  show ?thesis
    using u1 l0 by (simp add: send_to_session_def py_in_def get_session_user_id_def)
qed

end
